theory Spec2Isabelle
  imports Complex_Main
begin

section \<open>Python values used by the program\<close>

text \<open>
  The program computes with Python \<open>float\<close>s. A finite float is modelled as a real
  number and arithmetic on finite floats as exact (rounding is not modelled), within
  the range of the finite floats: a result beyond that range is an infinity, as in the
  program. The non-finite values are the two infinities and \<open>nan\<close>.
  Strings are modelled as lists of ASCII characters.
\<close>

datatype pyfloat = Finite real | PosInf | NegInf | NaN

text \<open>
  The largest finite float is \<open>2^1024 - 2^971\<close>. A number of magnitude
  \<open>2^1024 - 2^970\<close> or more rounds beyond it: an arithmetic result or a text read by
  \<open>float()\<close> becomes an infinity (\<open>to_float\<close>), and the conversion of an \<open>int\<close> to a
  float raises \<open>OverflowError\<close> (\<open>None\<close> in \<open>float_of_int\<close>).
\<close>

definition float_overflow :: real where
  "float_overflow = 2 ^ 1024 - 2 ^ 970"

definition to_float :: "real \<Rightarrow> pyfloat" where
  "to_float r = (if \<bar>r\<bar> < float_overflow then Finite r else if 0 < r then PosInf else NegInf)"

definition float_of_int :: "int \<Rightarrow> pyfloat option" where
  "float_of_int i =
     (if \<bar>real_of_int i\<bar> < float_overflow then Some (Finite (real_of_int i)) else None)"

fun pf_add :: "pyfloat \<Rightarrow> pyfloat \<Rightarrow> pyfloat" where
  "pf_add (Finite a) (Finite b) = to_float (a + b)"
| "pf_add NaN _ = NaN"
| "pf_add _ NaN = NaN"
| "pf_add PosInf NegInf = NaN"
| "pf_add NegInf PosInf = NaN"
| "pf_add PosInf _ = PosInf"
| "pf_add _ PosInf = PosInf"
| "pf_add NegInf _ = NegInf"
| "pf_add _ NegInf = NegInf"

fun pf_neg :: "pyfloat \<Rightarrow> pyfloat" where
  "pf_neg (Finite a) = Finite (- a)"
| "pf_neg PosInf = NegInf"
| "pf_neg NegInf = PosInf"
| "pf_neg NaN = NaN"

fun pf_scale :: "real \<Rightarrow> pyfloat \<Rightarrow> pyfloat" where
  "pf_scale k (Finite a) = to_float (k * a)"
| "pf_scale k NaN = NaN"
| "pf_scale k x = (if k = 0 then NaN else if 0 < k then x else pf_neg x)"

text \<open>Division by a finite, non-zero constant (the program divides by 60.0 and 3600.0 only).\<close>

definition pf_div_const :: "pyfloat \<Rightarrow> real \<Rightarrow> pyfloat" where
  "pf_div_const x d = pf_scale (1 / d) x"

text \<open>The comparison \<open>a < b\<close> of a finite float with any float: false against \<open>nan\<close>.\<close>

fun pf_less :: "real \<Rightarrow> pyfloat \<Rightarrow> bool" where
  "pf_less a (Finite b) = (a < b)"
| "pf_less a PosInf = True"
| "pf_less a NegInf = False"
| "pf_less a NaN = False"

subsection \<open>\<open>str.strip\<close>, \<open>str.split\<close>, \<open>str.replace\<close>\<close>

text \<open>The ASCII characters for which \<open>str.isspace\<close> holds: tab, LF, VT, FF, CR,
  the separators 0x1c to 0x1f, and the space.\<close>

definition is_space :: "char \<Rightarrow> bool" where
  "is_space c = (c \<in> set [CHR 0x09, CHR 0x0A, CHR 0x0B, CHR 0x0C, CHR 0x0D,
                           CHR 0x1C, CHR 0x1D, CHR 0x1E, CHR 0x1F, CHR 0x20])"

definition strip_with :: "(char \<Rightarrow> bool) \<Rightarrow> string \<Rightarrow> string" where
  "strip_with ws s = rev (dropWhile ws (rev (dropWhile ws s)))"

definition strip :: "string \<Rightarrow> string" where
  "strip s = strip_with is_space s"

text \<open>\<open>int()\<close> and \<open>float()\<close> skip a smaller set around the number: tab, LF, VT, FF, CR
  and the space.\<close>

definition is_num_space :: "char \<Rightarrow> bool" where
  "is_num_space c = (c \<in> set [CHR 0x09, CHR 0x0A, CHR 0x0B, CHR 0x0C, CHR 0x0D, CHR 0x20])"

text \<open>\<open>s.split(sep)\<close> for a one-character separator: never an empty list.\<close>

fun split_on :: "char \<Rightarrow> string \<Rightarrow> string list" where
  "split_on sep [] = [[]]"
| "split_on sep (c # cs) =
     (if c = sep then [] # split_on sep cs
      else (case split_on sep cs of
              p # ps \<Rightarrow> (c # p) # ps
            | [] \<Rightarrow> [[c]]))"

text \<open>\<open>s.replace(a, b)\<close> for single characters, and \<open>s.replace(a, '')\<close>.\<close>

definition replace_char :: "char \<Rightarrow> char \<Rightarrow> string \<Rightarrow> string" where
  "replace_char a b s = map (\<lambda>c. if c = a then b else c) s"

definition remove_char :: "char \<Rightarrow> string \<Rightarrow> string" where
  "remove_char a s = filter (\<lambda>c. c \<noteq> a) s"

text \<open>\<open>sub in s\<close> for strings.\<close>

fun contains :: "string \<Rightarrow> string \<Rightarrow> bool" where
  "contains sub [] = (sub = [])"
| "contains sub (c # cs) = (take (length sub) (c # cs) = sub \<or> contains sub cs)"

subsection \<open>\<open>int()\<close> and \<open>float()\<close> of a string\<close>

definition digit_of :: "char \<Rightarrow> nat option" where
  "digit_of c = map_of
     [(CHR ''0'', 0), (CHR ''1'', 1), (CHR ''2'', 2), (CHR ''3'', 3), (CHR ''4'', 4),
      (CHR ''5'', 5), (CHR ''6'', 6), (CHR ''7'', 7), (CHR ''8'', 8), (CHR ''9'', 9)] c"

text \<open>
  A run of decimal digits in which single underscores may stand between digits
  (\<open>1_000\<close>), read to the end of the text. \<open>prev\<close> says that the character before
  was a digit.
\<close>

fun digits_val :: "nat \<Rightarrow> bool \<Rightarrow> string \<Rightarrow> nat option" where
  "digits_val acc prev [] = (if prev then Some acc else None)"
| "digits_val acc prev (c # cs) =
     (case digit_of c of
        Some d \<Rightarrow> digits_val (10 * acc + d) True cs
      | None \<Rightarrow> if c = CHR ''_'' \<and> prev then digits_val acc False cs else None)"

text \<open>
  \<open>int(s)\<close> in base 10: surrounding whitespace is dropped, one sign is allowed, then
  digits. \<open>None\<close> stands for the \<open>ValueError\<close>, which the interpreter also raises for a
  text of more than 4300 digits (its default limit, leading zeros counted).
\<close>

definition max_str_digits :: nat where
  "max_str_digits = 4300"

definition py_int :: "string \<Rightarrow> int option" where
  "py_int s =
     (case strip_with is_num_space s of
        [] \<Rightarrow> None
      | c # cs \<Rightarrow>
          if max_str_digits < length (filter (\<lambda>d. digit_of d \<noteq> None) (c # cs)) then None
          else if c = CHR ''-'' then map_option (\<lambda>n. - int n) (digits_val 0 False cs)
          else if c = CHR ''+'' then map_option int (digits_val 0 False cs)
          else map_option int (digits_val 0 False (c # cs)))"

text \<open>
  The decimal literals of \<open>float(s)\<close>, read by an automaton: integer digits, an
  optional point and fraction digits, an optional exponent. The states carry the
  mantissa \<open>m\<close> (all digits read so far), the number \<open>k\<close> of fraction digits, and the
  sign and value of the exponent.
\<close>

datatype fstate =
    FStart
  | FInt nat
  | FIntU nat
  | FDot0
  | FPoint nat
  | FFrac nat nat
  | FFracU nat nat
  | FExp0 nat nat
  | FExpS nat nat bool
  | FExpD nat nat bool nat
  | FExpU nat nat bool nat

definition is_e :: "char \<Rightarrow> bool" where
  "is_e c = (c = CHR ''e'' \<or> c = CHR ''E'')"

fun fstep :: "fstate \<Rightarrow> char \<Rightarrow> fstate option" where
  "fstep FStart c =
     (case digit_of c of Some d \<Rightarrow> Some (FInt d)
      | None \<Rightarrow> if c = CHR ''.'' then Some FDot0 else None)"
| "fstep (FInt m) c =
     (case digit_of c of Some d \<Rightarrow> Some (FInt (10 * m + d))
      | None \<Rightarrow> if c = CHR ''_'' then Some (FIntU m)
                else if c = CHR ''.'' then Some (FPoint m)
                else if is_e c then Some (FExp0 m 0) else None)"
| "fstep (FIntU m) c =
     (case digit_of c of Some d \<Rightarrow> Some (FInt (10 * m + d)) | None \<Rightarrow> None)"
| "fstep FDot0 c =
     (case digit_of c of Some d \<Rightarrow> Some (FFrac d 1) | None \<Rightarrow> None)"
| "fstep (FPoint m) c =
     (case digit_of c of Some d \<Rightarrow> Some (FFrac (10 * m + d) 1)
      | None \<Rightarrow> if is_e c then Some (FExp0 m 0) else None)"
| "fstep (FFrac m k) c =
     (case digit_of c of Some d \<Rightarrow> Some (FFrac (10 * m + d) (Suc k))
      | None \<Rightarrow> if c = CHR ''_'' then Some (FFracU m k)
                else if is_e c then Some (FExp0 m k) else None)"
| "fstep (FFracU m k) c =
     (case digit_of c of Some d \<Rightarrow> Some (FFrac (10 * m + d) (Suc k)) | None \<Rightarrow> None)"
| "fstep (FExp0 m k) c =
     (case digit_of c of Some d \<Rightarrow> Some (FExpD m k False d)
      | None \<Rightarrow> if c = CHR ''+'' then Some (FExpS m k False)
                else if c = CHR ''-'' then Some (FExpS m k True) else None)"
| "fstep (FExpS m k neg) c =
     (case digit_of c of Some d \<Rightarrow> Some (FExpD m k neg d) | None \<Rightarrow> None)"
| "fstep (FExpD m k neg e) c =
     (case digit_of c of Some d \<Rightarrow> Some (FExpD m k neg (10 * e + d))
      | None \<Rightarrow> if c = CHR ''_'' then Some (FExpU m k neg e) else None)"
| "fstep (FExpU m k neg e) c =
     (case digit_of c of Some d \<Rightarrow> Some (FExpD m k neg (10 * e + d)) | None \<Rightarrow> None)"

fun ffinal :: "fstate \<Rightarrow> real option" where
  "ffinal (FInt m) = Some (real m)"
| "ffinal (FPoint m) = Some (real m)"
| "ffinal (FFrac m k) = Some (real m / 10 ^ k)"
| "ffinal (FExpD m k neg e) =
     Some (if neg then real m / 10 ^ k / 10 ^ e else real m / 10 ^ k * 10 ^ e)"
| "ffinal _ = None"

fun frun :: "fstate \<Rightarrow> string \<Rightarrow> real option" where
  "frun st [] = ffinal st"
| "frun st (c # cs) = (case fstep st c of None \<Rightarrow> None | Some st' \<Rightarrow> frun st' cs)"

text \<open>Case-insensitive comparison with a lower-case word and its upper-case form.\<close>

definition ci_equal :: "string \<Rightarrow> string \<Rightarrow> string \<Rightarrow> bool" where
  "ci_equal lo up s = list_all2 (\<lambda>c (l, u). c = l \<or> c = u) s (zip lo up)"

definition float_body :: "string \<Rightarrow> pyfloat option" where
  "float_body b =
     (if ci_equal ''inf'' ''INF'' b \<or> ci_equal ''infinity'' ''INFINITY'' b then Some PosInf
      else if ci_equal ''nan'' ''NAN'' b then Some NaN
      else map_option to_float (frun FStart b))"

text \<open>
  \<open>float(s)\<close>: surrounding whitespace is dropped, one sign is allowed, then \<open>inf\<close>,
  \<open>infinity\<close>, \<open>nan\<close> or a decimal literal. \<open>None\<close> stands for the \<open>ValueError\<close>.
\<close>

definition py_float :: "string \<Rightarrow> pyfloat option" where
  "py_float s =
     (case strip_with is_num_space s of
        [] \<Rightarrow> None
      | c # cs \<Rightarrow>
          if c = CHR ''-'' then map_option pf_neg (float_body cs)
          else if c = CHR ''+'' then float_body cs
          else float_body (c # cs))"

section \<open>Configuration (\<open>config.py\<close>)\<close>

text \<open>The settings the modelled functions read. They are module attributes that the
  settings endpoint may overwrite, so they are passed explicitly.\<close>

record config =
  TARGET_ACCURACY :: real
  MAX_ITERATIONS :: int
  SETTLE_TIME :: real
  LATITUDE :: real
  DEFAULT_EXPOSURE :: real

definition default_config :: config where
  "default_config =
     \<lparr>TARGET_ACCURACY = 60, MAX_ITERATIONS = 20, SETTLE_TIME = 1,
      LATITUDE = 40, DEFAULT_EXPOSURE = 2\<rparr>"

section \<open>Polar alignment error (\<open>pa_calculator.py\<close>)\<close>

record PAError =
  az_error :: real
  alt_error :: real
  total_error :: real

text \<open>\<open>PAError.is_aligned\<close>: the default target is read from the configuration.\<close>

definition is_aligned :: "config \<Rightarrow> PAError \<Rightarrow> real option \<Rightarrow> bool" where
  "is_aligned cfg self target_accuracy =
     (let target = (case target_accuracy of None \<Rightarrow> TARGET_ACCURACY cfg | Some t \<Rightarrow> t)
      in total_error self < target)"

text \<open>\<open>math.radians\<close> and \<open>math.degrees\<close>.\<close>

definition radians :: "real \<Rightarrow> real" where
  "radians x = x * (pi / 180)"

definition degrees :: "real \<Rightarrow> real" where
  "degrees x = x * (180 / pi)"

text \<open>
  The two loops that wrap \<open>delta_ra\<close>:
  \<^verbatim>\<open>while delta_ra > math.pi: delta_ra -= 2 * math.pi\<close> and
  \<^verbatim>\<open>while delta_ra < -math.pi: delta_ra += 2 * math.pi\<close>.
\<close>

function wrap_above :: "real \<Rightarrow> real" where
  "wrap_above delta_ra = (if delta_ra > pi then wrap_above (delta_ra - 2 * pi) else delta_ra)"
  by pat_completeness auto
termination
proof (relation "measure (\<lambda>d. nat \<lceil>d / (2 * pi)\<rceil>)")
  show "wf (measure (\<lambda>d. nat \<lceil>d / (2 * pi)\<rceil>))" by simp
next
  fix delta_ra :: real
  assume gt: "pi < delta_ra"
  have "(delta_ra - 2 * pi) / (2 * pi) = delta_ra / (2 * pi) - 1"
    by (simp add: field_simps)
  then have "\<lceil>(delta_ra - 2 * pi) / (2 * pi)\<rceil> = \<lceil>delta_ra / (2 * pi)\<rceil> - 1"
    by simp
  moreover have "0 < delta_ra"
    using gt pi_gt_zero by linarith
  then have "0 < delta_ra / (2 * pi)"
    by simp
  then have "0 < \<lceil>delta_ra / (2 * pi)\<rceil>"
    by simp
  ultimately show "(delta_ra - 2 * pi, delta_ra) \<in> measure (\<lambda>d. nat \<lceil>d / (2 * pi)\<rceil>)"
    by simp
qed

declare wrap_above.simps [simp del]

function wrap_below :: "real \<Rightarrow> real" where
  "wrap_below delta_ra = (if delta_ra < - pi then wrap_below (delta_ra + 2 * pi) else delta_ra)"
  by pat_completeness auto
termination
proof (relation "measure (\<lambda>d. nat \<lceil>- d / (2 * pi)\<rceil>)")
  show "wf (measure (\<lambda>d. nat \<lceil>- d / (2 * pi)\<rceil>))" by simp
next
  fix delta_ra :: real
  assume lt: "delta_ra < - pi"
  have "- (delta_ra + 2 * pi) / (2 * pi) = - delta_ra / (2 * pi) - 1"
    by (simp add: field_simps)
  then have eq: "\<lceil>- (delta_ra + 2 * pi) / (2 * pi)\<rceil> = \<lceil>- delta_ra / (2 * pi)\<rceil> - 1"
    by (simp only: ceiling_diff_one)
  have "0 < - delta_ra"
    using lt pi_gt_zero by linarith
  then have "0 < - delta_ra / (2 * pi)"
    using pi_gt_zero by (intro divide_pos_pos) simp_all
  then have pos: "0 < \<lceil>- delta_ra / (2 * pi)\<rceil>"
    by (simp only: ceiling_less_iff less_ceiling_iff of_int_0)
  from eq pos have "nat \<lceil>- (delta_ra + 2 * pi) / (2 * pi)\<rceil> < nat \<lceil>- delta_ra / (2 * pi)\<rceil>"
    by linarith
  then show "(delta_ra + 2 * pi, delta_ra) \<in> measure (\<lambda>d. nat \<lceil>- d / (2 * pi)\<rceil>)"
    by (simp only: in_measure)
qed

declare wrap_below.simps [simp del]

text \<open>
  \<open>calculate_pa_error\<close>. The latitude is converted and its sine and cosine are computed,
  as in the source, but the result does not use them.
\<close>

definition calculate_pa_error ::
  "config \<Rightarrow> real \<Rightarrow> real \<Rightarrow> real \<Rightarrow> real \<Rightarrow> real option \<Rightarrow> PAError" where
  "calculate_pa_error cfg solved_ra solved_dec mount_ra mount_dec latitude_arg =
     (let latitude = (case latitude_arg of None \<Rightarrow> LATITUDE cfg | Some l \<Rightarrow> l);
          solved_ra_rad = radians solved_ra;
          solved_dec_rad = radians solved_dec;
          mount_ra_rad = radians mount_ra;
          mount_dec_rad = radians mount_dec;
          lat_rad = radians latitude;
          delta_ra = wrap_below (wrap_above (solved_ra_rad - mount_ra_rad));
          delta_dec = solved_dec_rad - mount_dec_rad;
          delta_ra_arcmin = degrees delta_ra * 60;
          delta_dec_arcmin = degrees delta_dec * 60;
          cos_dec0 = cos mount_dec_rad;
          cos_dec = (if cos_dec0 < 0.1 then 0.1 else cos_dec0);
          az = delta_ra_arcmin / cos_dec;
          alt = delta_dec_arcmin;
          sin_lat = sin lat_rad;
          cos_lat = cos lat_rad;
          total_error_arcmin = sqrt (az\<^sup>2 + alt\<^sup>2);
          total_error_arcsec = total_error_arcmin * 60
      in \<lparr>az_error = az, alt_error = alt, total_error = total_error_arcsec\<rparr>)"

text \<open>
  \<open>parse_ra_string\<close>. Every exception raised inside the \<open>try\<close> block is caught and
  turned into \<open>None\<close>: the \<open>ValueError\<close> of \<open>int()\<close> and \<open>float()\<close>, and the
  \<open>OverflowError\<close> of the arithmetic, which converts the integers \<open>minutes\<close> (for the
  division) and \<open>hours\<close> (for the addition) to floats.
\<close>

definition parse_ra_string :: "string \<Rightarrow> pyfloat option" where
  "parse_ra_string ra_str0 =
     (let ra_str = strip ra_str0;
          parts = split_on CHR '':'' ra_str
      in if length parts = 3 then
           (case py_int (parts ! 0) of None \<Rightarrow> None | Some hours \<Rightarrow>
            (case py_int (parts ! 1) of None \<Rightarrow> None | Some minutes \<Rightarrow>
             (case py_float (parts ! 2) of None \<Rightarrow> None | Some seconds \<Rightarrow>
               (case float_of_int minutes of None \<Rightarrow> None | Some minutes_f \<Rightarrow>
                (case float_of_int hours of None \<Rightarrow> None | Some hours_f \<Rightarrow>
                   Some (pf_scale 15
                          (pf_add (pf_add hours_f (pf_div_const minutes_f 60))
                                  (pf_div_const seconds 3600))))))))
         else
           (case py_float ra_str of None \<Rightarrow> None
            | Some ra_hours \<Rightarrow> Some (pf_scale 15 ra_hours)))"

text \<open>
  The line \<^verbatim>\<open>dec_str.replace('*', ':').replace("'", ':').replace('"', '')\<close>: the star and
  the single quote become colons, the double quote is deleted.
\<close>

definition dec_normalise :: "string \<Rightarrow> string" where
  "dec_normalise dec_str =
     remove_char (CHR 0x22) (replace_char (CHR 0x27) CHR '':'' (replace_char CHR ''*'' CHR '':'' dec_str))"

text \<open>
  \<open>parse_dec_string\<close>. \<open>dec_str[0]\<close> raises \<open>IndexError\<close> on the empty text, which
  is caught like the conversion errors and the \<open>OverflowError\<close> of the arithmetic.
\<close>

definition parse_dec_string :: "string \<Rightarrow> pyfloat option" where
  "parse_dec_string dec_str0 =
     (case strip dec_str0 of
        [] \<Rightarrow> None
      | c # rest \<Rightarrow>
          let sign = (if c = CHR ''-'' then - 1 else 1 :: real);
              dec_str1 = (if c = CHR ''-'' \<or> c = CHR ''+'' then rest else c # rest);
              dec_str = dec_normalise dec_str1;
              parts = split_on CHR '':'' dec_str
          in if length parts \<ge> 2 then
               (case py_int (parts ! 0) of None \<Rightarrow> None | Some degs \<Rightarrow>
                (case py_int (parts ! 1) of None \<Rightarrow> None | Some minutes \<Rightarrow>
                 (case (if length parts > 2 then py_float (parts ! 2) else Some (Finite 0)) of
                    None \<Rightarrow> None
                  | Some seconds \<Rightarrow>
                     (case float_of_int minutes of None \<Rightarrow> None | Some minutes_f \<Rightarrow>
                      (case float_of_int degs of None \<Rightarrow> None | Some degs_f \<Rightarrow>
                         Some (pf_scale sign
                                (pf_add (pf_add degs_f (pf_div_const minutes_f 60))
                                        (pf_div_const seconds 3600))))))))
             else
               (case py_float dec_str of None \<Rightarrow> None
                | Some d \<Rightarrow> Some (pf_scale sign d)))"

text \<open>\<open>calculate_correction\<close>; \<open>invert_az\<close> defaults to \<open>True\<close> at the call sites.\<close>

definition calculate_correction :: "PAError \<Rightarrow> bool \<Rightarrow> real \<times> real" where
  "calculate_correction pa_error invert_az =
     (let az_correction = - az_error pa_error;
          alt_correction = alt_error pa_error;
          az_correction = (if invert_az then - az_correction else az_correction)
      in (az_correction, alt_correction))"

section \<open>Text formatting\<close>

text \<open>\<open>str.lower\<close> and \<open>str.upper\<close> on ASCII text.\<close>

definition lower :: "string \<Rightarrow> string" where
  "lower s = map (\<lambda>c. case map_of (zip ''ABCDEFGHIJKLMNOPQRSTUVWXYZ''
                                          ''abcdefghijklmnopqrstuvwxyz'') c of
                         Some l \<Rightarrow> l | None \<Rightarrow> c) s"

definition upper :: "string \<Rightarrow> string" where
  "upper s = map (\<lambda>c. case map_of (zip ''abcdefghijklmnopqrstuvwxyz''
                                          ''ABCDEFGHIJKLMNOPQRSTUVWXYZ'') c of
                         Some u \<Rightarrow> u | None \<Rightarrow> c) s"

definition digit_char :: "nat \<Rightarrow> char" where
  "digit_char d = ''0123456789'' ! (d mod 10)"

function show_nat :: "nat \<Rightarrow> string" where
  "show_nat n = (if n < 10 then [digit_char n] else show_nat (n div 10) @ [digit_char (n mod 10)])"
  by pat_completeness auto
termination
  by (relation "measure id") auto

declare show_nat.simps [simp del]

definition show_int :: "int \<Rightarrow> string" where
  "show_int i = (if i < 0 then CHR ''-'' # show_nat (nat (- i)) else show_nat (nat i))"

definition round_half_even :: "real \<Rightarrow> int" where
  "round_half_even r =
     (let f = \<lfloor>r\<rfloor>; d = r - of_int f
      in if d < 1 / 2 then f else if 1 / 2 < d then f + 1 else if even f then f else f + 1)"

text \<open>
  The format specifications \<open>.1f\<close> and \<open>+.2f\<close> of the f-strings: \<open>force_sign\<close> asks for the
  sign of non-negative numbers, \<open>decimals\<close> is the number of fraction digits.
\<close>

definition fmt_fixed :: "bool \<Rightarrow> nat \<Rightarrow> real \<Rightarrow> string" where
  "fmt_fixed force_sign decimals x =
     (let n = nat (round_half_even (\<bar>x\<bar> * 10 ^ decimals));
          fps = show_nat (n mod 10 ^ decimals)
      in (if x < 0 then ''-'' else if force_sign then ''+'' else [])
         @ show_nat (n div 10 ^ decimals)
         @ (if decimals = 0 then []
            else ''.'' @ replicate (decimals - length fps) CHR ''0'' @ fps))"

section \<open>Mount client (\<open>mount_client.py\<close>)\<close>

text \<open>
  The serial port as the client sees it. \<open>tx\<close> collects every byte written, in order.
  \<open>rx_script\<close> is the environment: its head holds the bytes that arrive within the
  two-second read window of the next command that waits for a response (none when the
  script is exhausted). \<open>io_error\<close> says that the port raises on every input/output call.
\<close>

record serial_port =
  port_name :: string
  is_open :: bool
  io_error :: bool
  tx :: string
  rx_script :: "string list"

datatype mount_mode = Indi | Serial

record mount_client =
  mode :: "mount_mode option"
  serial_conn :: "serial_port option"
  connected_flag :: bool

text \<open>\<open>MountClient.__init__\<close>.\<close>

definition new_mount_client :: mount_client where
  "new_mount_client = \<lparr>mode = None, serial_conn = None, connected_flag = False\<rparr>"

text \<open>\<open>serial_conn.close()\<close>.\<close>

definition close_port :: "serial_port \<Rightarrow> serial_port" where
  "close_port p = p\<lparr>is_open := False\<rparr>"

text \<open>\<open>bytes.decode('ascii', errors='ignore')\<close> drops every byte above 127.\<close>

definition decode_ascii :: "string \<Rightarrow> string" where
  "decode_ascii bs = filter (\<lambda>c. \<not> digit7 c) bs"

text \<open>
  \<open>_serial_command\<close>. Any exception (no port object, a closed or failing port) is
  caught and gives \<open>None\<close>. The read loop collects bytes until \<open>#\<close> or the end of the
  window and returns what it has.
\<close>

definition serial_command ::
  "string \<Rightarrow> bool \<Rightarrow> mount_client \<Rightarrow> string option \<times> mount_client" where
  "serial_command command expect_response self =
     (case serial_conn self of
        None \<Rightarrow> (None, self)
      | Some p \<Rightarrow>
          if \<not> is_open p \<or> io_error p then (None, self)
          else
            let p1 = p\<lparr>tx := tx p @ command\<rparr>
            in if \<not> expect_response then (Some [], self\<lparr>serial_conn := Some p1\<rparr>)
               else
                 (case rx_script p1 of
                    [] \<Rightarrow> (Some [], self\<lparr>serial_conn := Some p1\<rparr>)
                  | r # rs \<Rightarrow>
                      (Some (decode_ascii (takeWhile (\<lambda>c. c \<noteq> CHR ''#'') r)),
                       self\<lparr>serial_conn := Some (p1\<lparr>rx_script := rs\<rparr>)\<rparr>)))"

text \<open>\<open>_indi_command\<close>: not implemented by the program, always \<open>None\<close>.\<close>

definition indi_command ::
  "string \<Rightarrow> bool \<Rightarrow> mount_client \<Rightarrow> string option \<times> mount_client" where
  "indi_command command expect_response self = (None, self)"

definition send_command ::
  "string \<Rightarrow> bool \<Rightarrow> mount_client \<Rightarrow> string option \<times> mount_client" where
  "send_command command expect_response self =
     (if \<not> connected_flag self then (None, self)
      else
        (case mode self of
           Some Serial \<Rightarrow> serial_command command expect_response self
         | Some Indi \<Rightarrow> indi_command command expect_response self
         | None \<Rightarrow> (None, self)))"

definition get_position ::
  "mount_client \<Rightarrow> (string option \<times> string option) \<times> mount_client" where
  "get_position self =
     (let (ra, self1) = send_command '':GR#'' True self;
          (dec, self2) = send_command '':GD#'' True self1
      in ((ra, dec), self2))"

definition get_status :: "mount_client \<Rightarrow> string option \<times> mount_client" where
  "get_status self = send_command '':GX#'' True self"

definition is_slewing :: "mount_client \<Rightarrow> bool \<times> mount_client" where
  "is_slewing self =
     (let (response, self1) = send_command '':GIS#'' True self
      in (response = Some ''1'', self1))"

definition is_tracking :: "mount_client \<Rightarrow> bool \<times> mount_client" where
  "is_tracking self =
     (let (response, self1) = send_command '':GIT#'' True self
      in (response = Some ''1'', self1))"

definition is_adjusting :: "mount_client \<Rightarrow> bool \<times> mount_client" where
  "is_adjusting self =
     (let (status, self1) = get_status self
      in (case status of
            None \<Rightarrow> (False, self1)
          | Some st \<Rightarrow>
              if st = [] then (False, self1)
              else
                (let parts = split_on CHR '','' st
                 in if length parts \<ge> 2 then
                      (let motion = parts ! 1
                       in if length motion \<ge> 5 then
                            (motion ! 3 \<noteq> CHR ''-'' \<or> motion ! 4 \<noteq> CHR ''-'', self1)
                          else (False, self1))
                    else (False, self1))))"

definition start_slew :: "string \<Rightarrow> mount_client \<Rightarrow> mount_client" where
  "start_slew direction0 self =
     (let direction = lower direction0
      in if direction \<in> set [''n'', ''s'', ''e'', ''w''] then
           snd (send_command ('':M'' @ direction @ ''#'') False self)
         else self)"

definition stop_slew :: "string \<Rightarrow> mount_client \<Rightarrow> mount_client" where
  "stop_slew direction0 self =
     (let direction = lower direction0
      in if direction = ''a'' then snd (send_command '':Q#'' False self)
         else if direction \<in> set [''n'', ''s'', ''e'', ''w''] then
           snd (send_command ('':Q'' @ direction @ ''#'') False self)
         else self)"

definition set_slew_rate :: "string \<Rightarrow> mount_client \<Rightarrow> mount_client" where
  "set_slew_rate rate0 self =
     (let rate = upper rate0
      in if rate \<in> set [''S'', ''M'', ''C'', ''G''] then
           snd (send_command ('':R'' @ rate @ ''#'') False self)
         else self)"

definition move_azimuth :: "real \<Rightarrow> mount_client \<Rightarrow> mount_client" where
  "move_azimuth arcminutes self =
     (let cmd = '':MAZ'' @ fmt_fixed True 2 arcminutes @ ''#''
      in snd (send_command cmd False self))"

definition move_altitude :: "real \<Rightarrow> mount_client \<Rightarrow> mount_client" where
  "move_altitude arcminutes self =
     (let cmd = '':MAL'' @ fmt_fixed True 2 arcminutes @ ''#''
      in snd (send_command cmd False self))"

definition set_tracking :: "bool \<Rightarrow> mount_client \<Rightarrow> mount_client" where
  "set_tracking enabled self =
     (let cmd = (if enabled then '':MT1#'' else '':MT0#'')
      in snd (send_command cmd True self))"

definition get_az_alt_position ::
  "mount_client \<Rightarrow> (int option \<times> int option) \<times> mount_client" where
  "get_az_alt_position self =
     (let (response, self1) = send_command '':XGAA#'' True self
      in (case response of
            None \<Rightarrow> ((None, None), self1)
          | Some r \<Rightarrow>
              if r = [] then ((None, None), self1)
              else
                (let parts = split_on CHR ''|'' r
                 in if length parts \<ge> 2 then
                      (case (py_int (parts ! 0), py_int (parts ! 1)) of
                         (Some a, Some b) \<Rightarrow> ((Some a, Some b), self1)
                       | _ \<Rightarrow> ((None, None), self1))
                    else ((None, None), self1))))"

definition home_az_alt :: "mount_client \<Rightarrow> mount_client" where
  "home_az_alt self = snd (send_command '':MAAH#'' False self)"

text \<open>
  What connecting depends on outside the program: whether the \<open>serial\<close> and \<open>PyIndi\<close>
  modules were imported, what is behind a serial port name (\<open>None\<close> when
  \<open>serial.Serial(...)\<close> raises; otherwise whether the opened port fails on use, and
  what the device will send), and whether the INDI server and telescope answer.
\<close>

record device =
  dev_io_error :: bool
  dev_script :: "string list"

record connect_env =
  SERIAL_AVAILABLE :: bool
  INDI_AVAILABLE :: bool
  serial_device :: "string \<Rightarrow> device option"
  indi_device_found :: bool

text \<open>\<open>serial.Serial(port=port, ...)\<close>: the port is open when the constructor returns.\<close>

definition open_serial :: "connect_env \<Rightarrow> string \<Rightarrow> serial_port option" where
  "open_serial env port =
     map_option
       (\<lambda>d. \<lparr>port_name = port, is_open = True, io_error = dev_io_error d,
              tx = [], rx_script = dev_script d\<rparr>)
       (serial_device env port)"

text \<open>
  \<open>_connect_serial\<close>. When the constructor raises, \<open>self.serial_conn\<close> still holds the
  object of an earlier attempt, if any, and the handler closes that one.
\<close>

definition connect_serial ::
  "connect_env \<Rightarrow> string \<Rightarrow> mount_client \<Rightarrow> bool \<times> mount_client" where
  "connect_serial env port self =
     (if \<not> SERIAL_AVAILABLE env then (False, self)
      else
        (case open_serial env port of
           None \<Rightarrow> (False, self\<lparr>serial_conn := map_option close_port (serial_conn self)\<rparr>)
         | Some p \<Rightarrow>
             (let self1 = self\<lparr>serial_conn := Some p\<rparr>;
                  (response, self2) = serial_command '':GVP#'' True self1
              in if (case response of
                       None \<Rightarrow> False
                     | Some r \<Rightarrow> r \<noteq> [] \<and> contains ''OpenAstro'' r) then
                   (True, self2\<lparr>mode := Some Serial, connected_flag := True\<rparr>)
                 else
                   (False, self2\<lparr>serial_conn := map_option close_port (serial_conn self2)\<rparr>))))"

text \<open>\<open>_connect_indi\<close>: the calls into the INDI library are summarised by their outcome.\<close>

definition connect_indi :: "connect_env \<Rightarrow> mount_client \<Rightarrow> bool \<times> mount_client" where
  "connect_indi env self =
     (if \<not> INDI_AVAILABLE env then (False, self)
      else if \<not> indi_device_found env then (False, self)
      else (True, self\<lparr>mode := Some Indi, connected_flag := True\<rparr>))"

definition connect ::
  "connect_env \<Rightarrow> string \<Rightarrow> string \<Rightarrow> mount_client \<Rightarrow> bool \<times> mount_client" where
  "connect env mode_arg serial_port_arg self =
     (if connected_flag self then (True, self)
      else if mode_arg = ''indi'' then connect_indi env self
      else if mode_arg = ''serial'' then connect_serial env serial_port_arg self
      else (False, self))"

section \<open>Web application (\<open>app.py\<close>)\<close>

record SolveResult =
  ra :: real
  dec :: real
  rotation :: real
  pixel_scale :: real
  fov_width :: real
  fov_height :: real
  solver :: string

text \<open>
  The module's global state, the mount client singleton, and what the program has done
  to the outside: the threads it started (with their argument), the status events it
  emitted (message and level) and the pauses it made (\<open>time.sleep\<close>, in seconds).
\<close>

record app_state =
  alignment_running :: bool
  alignment_thread :: "nat option"
  threads :: "pyfloat list"
  last_pa_error :: "PAError option"
  last_solve_result :: "SolveResult option"
  mount :: mount_client
  emitted :: "(string \<times> string) list"
  slept :: "real list"

definition initial_app_state :: app_state where
  "initial_app_state =
     \<lparr>alignment_running = False, alignment_thread = None, threads = [],
      last_pa_error = None, last_solve_result = None, mount = new_mount_client,
      emitted = [], slept = []\<rparr>"

text \<open>The JSON values a request body may hold, as far as \<open>float()\<close> tells them apart.\<close>

datatype json = JNull | JBool bool | JInt int | JNum real | JStr string | JArr | JObj

text \<open>
  \<open>request.get_json()\<close>: nothing or a falsy value (then \<open>or {}\<close> applies), an object,
  or another truthy value, on which \<open>.get\<close> raises.
\<close>

datatype request_json = NoJson | JsonDict "(string \<times> json) list" | JsonOther

text \<open>\<open>float(v)\<close> of a JSON value; \<open>None\<close> stands for \<open>TypeError\<close> or \<open>ValueError\<close>.\<close>

fun float_of_json :: "json \<Rightarrow> pyfloat option" where
  "float_of_json (JNum r) = Some (to_float r)"
| "float_of_json (JInt i) = float_of_int i"
| "float_of_json (JBool b) = Some (Finite (if b then 1 else 0))"
| "float_of_json (JStr s) = py_float s"
| "float_of_json _ = None"

text \<open>
  The responses of the start endpoint: success, the 400 response with the error
  \<open>Alignment already running\<close>, and the 500 response of an unhandled exception.
\<close>

datatype start_response = Started | AlreadyRunning | ServerError

definition api_auto_align_start ::
  "config \<Rightarrow> request_json \<Rightarrow> app_state \<Rightarrow> start_response \<times> app_state" where
  "api_auto_align_start cfg req s =
     (if alignment_running s then (AlreadyRunning, s)
      else
        (case req of
           JsonOther \<Rightarrow> (ServerError, s)
         | _ \<Rightarrow>
           (let data = (case req of JsonDict d \<Rightarrow> d | _ \<Rightarrow> []);
                target = (case map_of data ''target_accuracy'' of
                            None \<Rightarrow> Some (Finite (TARGET_ACCURACY cfg))
                          | Some v \<Rightarrow> float_of_json v)
            in (case target of
                  None \<Rightarrow> (ServerError, s)
                | Some target_accuracy \<Rightarrow>
                    (Started,
                     s\<lparr>alignment_running := True,
                       alignment_thread := Some (length (threads s)),
                       threads := threads s @ [target_accuracy]\<rparr>)))))"

definition api_auto_align_stop :: "app_state \<Rightarrow> app_state" where
  "api_auto_align_stop s = s\<lparr>alignment_running := False\<rparr>"

definition emit_status :: "string \<Rightarrow> string \<Rightarrow> app_state \<Rightarrow> app_state" where
  "emit_status message level s = s\<lparr>emitted := emitted s @ [(message, level)]\<rparr>"

definition sleep :: "real \<Rightarrow> app_state \<Rightarrow> app_state" where
  "sleep seconds s = s\<lparr>slept := slept s @ [seconds]\<rparr>"

text \<open>
  What a run of the loop meets outside the program, by the value of \<open>iteration\<close>:
  the result of \<open>camera.capture\<close> and of \<open>solver.solve\<close> in the pass with that number,
  and whether the stop endpoint was called before the loop test that follows that many
  passes.
\<close>

record loop_env =
  capture_result :: "int \<Rightarrow> string option"
  solve_result :: "int \<Rightarrow> SolveResult option"
  stop_request :: "int \<Rightarrow> bool"

text \<open>
  Step 7 of the loop body:
  \<^verbatim>\<open>while mount.is_adjusting() and wait_count < 30: time.sleep(0.5); wait_count += 1\<close>
\<close>

function wait_adjusting :: "int \<Rightarrow> app_state \<Rightarrow> app_state" where
  "wait_adjusting wait_count s =
     (let r = is_adjusting (mount s);
          s1 = s\<lparr>mount := snd r\<rparr>
      in if fst r \<and> wait_count < 30 then wait_adjusting (wait_count + 1) (sleep 0.5 s1)
         else s1)"
  by pat_completeness auto
termination
  by (relation "measure (\<lambda>(wait_count, s). nat (30 - wait_count))") auto

declare wait_adjusting.simps [simp del]

text \<open>
  How a pass of the loop body ends: \<open>Continue\<close> (the end of the body or a \<open>continue\<close>),
  \<open>Break\<close>, or \<open>Nonfinite\<close>: the mount reported a coordinate text that \<open>float()\<close> reads as
  \<open>inf\<close> or \<open>nan\<close>, on which the arithmetic of \<open>calculate_pa_error\<close> is not modelled.
\<close>

datatype flow = Continue | Break | Nonfinite

definition parse_ra_opt :: "string option \<Rightarrow> pyfloat option" where
  "parse_ra_opt ra_str = (case ra_str of None \<Rightarrow> None | Some t \<Rightarrow> parse_ra_string t)"

definition parse_dec_opt :: "string option \<Rightarrow> pyfloat option" where
  "parse_dec_opt dec_str = (case dec_str of None \<Rightarrow> None | Some t \<Rightarrow> parse_dec_string t)"

text \<open>Steps 4 to 8 of the loop body, once the solve result and the mount position are known.\<close>

definition correct_pass ::
  "config \<Rightarrow> pyfloat \<Rightarrow> int \<Rightarrow> SolveResult \<Rightarrow> real \<Rightarrow> real \<Rightarrow> app_state \<Rightarrow> flow \<times> app_state" where
  "correct_pass cfg target_accuracy iteration result mount_ra mount_dec s =
     (let pa_error = calculate_pa_error cfg (ra result) (dec result) mount_ra mount_dec None;
          s1 = s\<lparr>last_pa_error := Some pa_error\<rparr>;
          s2 = emit_status
                 (''Iteration '' @ show_int iteration @ '': Error = ''
                    @ fmt_fixed False 1 (total_error pa_error) @ [CHR 0x22] @ '' (AZ: ''
                    @ fmt_fixed True 2 (az_error pa_error) @ [CHR 0x27] @ '', ALT: ''
                    @ fmt_fixed True 2 (alt_error pa_error) @ [CHR 0x27] @ '')'')
                 ''info'' s1
      in if pf_less (total_error pa_error) target_accuracy then
           (Break,
            emit_status
              (''Aligned! Final error: '' @ fmt_fixed False 1 (total_error pa_error) @ [CHR 0x22])
              ''success'' s2)
         else
           (let c = calculate_correction pa_error True;
                az_correction = fst c;
                alt_correction = snd c;
                s3 = emit_status
                       (''Applying correction: AZ='' @ fmt_fixed True 2 az_correction @ [CHR 0x27]
                          @ '', ALT='' @ fmt_fixed True 2 alt_correction @ [CHR 0x27])
                       ''info'' s2;
                s4 = s3\<lparr>mount := move_azimuth az_correction (mount s3)\<rparr>;
                s5 = s4\<lparr>mount := move_altitude alt_correction (mount s4)\<rparr>;
                s6 = wait_adjusting 0 (sleep 0.5 s5)
            in (Continue, sleep (SETTLE_TIME cfg) s6)))"

text \<open>
  One pass of the body of the \<open>while\<close> loop; \<open>iteration\<close> is the counter after
  \<open>iteration += 1\<close>. \<open>camera.capture\<close> failed when it gave \<open>None\<close> or an empty path.
  A mount text of \<open>None\<close> makes the parser raise inside its \<open>try\<close>, hence return \<open>None\<close>.
\<close>

definition align_pass ::
  "loop_env \<Rightarrow> config \<Rightarrow> pyfloat \<Rightarrow> int \<Rightarrow> app_state \<Rightarrow> flow \<times> app_state" where
  "align_pass env cfg target_accuracy iteration s =
     (let s1 = emit_status (''Iteration '' @ show_int iteration @ '': Capturing...'') ''info'' s;
          filepath = capture_result env iteration
      in if filepath = None \<or> filepath = Some [] then
           (Continue, sleep 2 (emit_status ''Capture failed'' ''error'' s1))
         else
           (let s2 = emit_status (''Iteration '' @ show_int iteration @ '': Solving...'') ''info'' s1
            in (case solve_result env iteration of
                  None \<Rightarrow>
                    (Continue,
                     sleep 2 (emit_status ''Plate solve failed - check framing'' ''warning'' s2))
                | Some result \<Rightarrow>
                    (let s3 = s2\<lparr>last_solve_result := Some result\<rparr>;
                         pos = get_position (mount s3);
                         s4 = s3\<lparr>mount := snd pos\<rparr>;
                         mount_ra = parse_ra_opt (fst (fst pos));
                         mount_dec = parse_dec_opt (snd (fst pos))
                     in if mount_ra = None \<or> mount_dec = None then
                          (Continue,
                           sleep 2 (emit_status ''Cannot read mount position'' ''error'' s4))
                        else
                          (case (mount_ra, mount_dec) of
                             (Some (Finite r), Some (Finite d)) \<Rightarrow>
                               correct_pass cfg target_accuracy iteration result r d s4
                           | _ \<Rightarrow> (Nonfinite, s4))))))"

text \<open>
  The loop \<^verbatim>\<open>while alignment_running and iteration < max_iterations\<close>. The flag is
  shared with the stop endpoint, whose calls the environment places before a loop test.
  The result gives how the loop was left, the final counter and the state.
\<close>

function align_loop ::
  "loop_env \<Rightarrow> config \<Rightarrow> pyfloat \<Rightarrow> int \<Rightarrow> app_state \<Rightarrow> flow \<times> int \<times> app_state" where
  "align_loop env cfg target_accuracy iteration s =
     (let s0 = (if stop_request env iteration then api_auto_align_stop s else s)
      in if alignment_running s0 \<and> iteration < MAX_ITERATIONS cfg then
           (let r = align_pass env cfg target_accuracy (iteration + 1) s0
            in if fst r = Continue
               then align_loop env cfg target_accuracy (iteration + 1) (snd r)
               else (fst r, iteration + 1, snd r))
         else (Continue, iteration, s0))"
  by pat_completeness auto
termination
  by (relation "measure (\<lambda>(env, cfg, target_accuracy, iteration, s).
                          nat (MAX_ITERATIONS cfg - iteration))") auto

declare align_loop.simps [simp del]

text \<open>\<open>auto_align_loop\<close>, the body of the worker thread.\<close>

definition auto_align_loop ::
  "loop_env \<Rightarrow> config \<Rightarrow> pyfloat \<Rightarrow> app_state \<Rightarrow> flow \<times> app_state" where
  "auto_align_loop env cfg target_accuracy s =
     (let max_iterations = MAX_ITERATIONS cfg;
          r = align_loop env cfg target_accuracy 0 (emit_status ''Auto-align started'' ''info'' s);
          iteration = fst (snd r);
          s1 = snd (snd r)
      in if fst r = Nonfinite then (Nonfinite, s1)
         else
           (let s2 = (if iteration \<ge> max_iterations then
                        emit_status (''Max iterations ('' @ show_int max_iterations @ '') reached'')
                          ''warning'' s1
                      else s1);
                s3 = s2\<lparr>alignment_running := False\<rparr>
            in (fst r, emit_status ''Auto-align finished'' ''info'' s3)))"

section \<open>Concrete environments for the examples\<close>

text \<open>A camera whose every capture fails, a solver that never solves, no stop request.\<close>

definition capture_fails_env :: loop_env where
  "capture_fails_env =
     \<lparr>capture_result = (\<lambda>_. None), solve_result = (\<lambda>_. None), stop_request = (\<lambda>_. False)\<rparr>"

text \<open>A device that answers the product query with another name, and one that answers
  as an OpenAstroTracker does.\<close>

definition dev_other :: device where
  "dev_other = \<lparr>dev_io_error = False, dev_script = [''Other#'']\<rparr>"

definition env_other :: connect_env where
  "env_other =
     \<lparr>SERIAL_AVAILABLE = True, INDI_AVAILABLE = False,
      serial_device = (\<lambda>_. Some dev_other), indi_device_found = False\<rparr>"

definition dev_oat :: device where
  "dev_oat = \<lparr>dev_io_error = False, dev_script = [''OpenAstroTracker#'']\<rparr>"

definition env_oat :: connect_env where
  "env_oat =
     \<lparr>SERIAL_AVAILABLE = True, INDI_AVAILABLE = False,
      serial_device = (\<lambda>_. Some dev_oat), indi_device_found = False\<rparr>"

section \<open>Notions used in the statements about the parsers\<close>

text \<open>
  The characters that can occur in a text accepted by \<open>int()\<close>, and in one accepted by
  \<open>float()\<close> (which also reads a point, an exponent and the words \<open>inf\<close>, \<open>infinity\<close>,
  \<open>nan\<close>). A text with any other character is not a number.
\<close>

definition int_char :: "char \<Rightarrow> bool" where
  "int_char c = (digit_of c \<noteq> None \<or> c \<in> set ''+-_'' \<or> is_num_space c)"

definition float_char :: "char \<Rightarrow> bool" where
  "float_char c =
     (digit_of c \<noteq> None \<or> c \<in> set ''+-_.eE'' \<or> c \<in> set ''infatyINFATY'' \<or> is_num_space c)"

text \<open>The separator characters that \<open>parse_dec_string\<close> turns into a colon, and the colon.\<close>

definition dec_separator :: "char \<Rightarrow> bool" where
  "dec_separator c = (c = CHR '':'' \<or> c = CHR ''*'' \<or> c = CHR 0x27)"

text \<open>
  A non-numeric component: a text without any digit, or with a character other than the
  digits, a sign, the point, the underscore, an exponent letter and the blanks that the
  conversions skip.
\<close>

definition number_char :: "char \<Rightarrow> bool" where
  "number_char c = (digit_of c \<noteq> None \<or> c \<in> set ''+-_.eE'' \<or> is_num_space c)"

definition has_digit :: "string \<Rightarrow> bool" where
  "has_digit s = list_ex (\<lambda>c. digit_of c \<noteq> None) s"

definition non_numeric :: "string \<Rightarrow> bool" where
  "non_numeric s = (\<not> has_digit s \<or> list_ex (\<lambda>c. \<not> number_char c) s)"

text \<open>
  The words that \<open>float()\<close> reads as non-finite values: \<open>inf\<close>, \<open>infinity\<close> and \<open>nan\<close>
  in any case, with an optional sign and surrounding blanks.
\<close>

definition is_float_word :: "string \<Rightarrow> bool" where
  "is_float_word s =
     (case strip_with is_num_space s of
        [] \<Rightarrow> False
      | c # cs \<Rightarrow>
          (let b = (if c = CHR ''-'' \<or> c = CHR ''+'' then cs else c # cs)
           in ci_equal ''inf'' ''INF'' b \<or> ci_equal ''infinity'' ''INFINITY'' b
              \<or> ci_equal ''nan'' ''NAN'' b))"

text \<open>A text of ASCII characters (bytes below 128) only.\<close>

definition ascii_text :: "string \<Rightarrow> bool" where
  "ascii_text s = list_all (\<lambda>c. \<not> digit7 c) s"

text \<open>The states of the automaton of \<open>float()\<close> in which a digit has been read.\<close>

fun digit_seen :: "fstate \<Rightarrow> bool" where
  "digit_seen FStart = False"
| "digit_seen FDot0 = False"
| "digit_seen _ = True"

section \<open>Properties of the error model\<close>

text \<open>
  Claim C8. \<open>is_aligned\<close> compares strictly: with a given target it holds exactly when
  the total error is below the target, so it is false when the total error equals the
  target; without a target it compares with the configured accuracy in the same way.
\<close>

theorem is_aligned_strict:
  "is_aligned cfg e (Some target) = (total_error e < target)
   \<and> \<not> is_aligned cfg (e\<lparr>total_error := target\<rparr>) (Some target)
   \<and> is_aligned cfg e None = (total_error e < TARGET_ACCURACY cfg)"
  by (simp add: is_aligned_def)

subsection \<open>Wrapping the right-ascension difference\<close>

text \<open>
  The two loops leave a value at or below \<open>pi\<close> (first loop) and at or above \<open>- pi\<close>
  (second loop), each by subtracting or adding a whole number of turns.
\<close>

lemma wrap_above_le: "wrap_above d \<le> pi"
  by (induction d rule: wrap_above.induct) (subst wrap_above.simps, simp)

lemma wrap_above_id: "d \<le> pi \<Longrightarrow> wrap_above d = d"
  by (subst wrap_above.simps) simp

lemma wrap_above_gt: "pi < d \<Longrightarrow> - pi < wrap_above d"
proof (induction d rule: wrap_above.induct)
  case (1 d)
  show ?case
  proof (cases "pi < d - 2 * pi")
    case True
    with 1 have "- pi < wrap_above (d - 2 * pi)" by simp
    with 1(2) show ?thesis by (subst wrap_above.simps) simp
  next
    case False
    then have "wrap_above (d - 2 * pi) = d - 2 * pi" by (simp add: wrap_above_id)
    with 1(2) show ?thesis by (subst wrap_above.simps) simp
  qed
qed

lemma wrap_above_shift: "\<exists>k::nat. wrap_above d = d - 2 * pi * real k"
proof (induction d rule: wrap_above.induct)
  case (1 d)
  show ?case
  proof (cases "pi < d")
    case True
    with 1 obtain k :: nat where "wrap_above (d - 2 * pi) = d - 2 * pi - 2 * pi * real k" by blast
    with True have "wrap_above d = d - 2 * pi * real (Suc k)"
      by (subst wrap_above.simps) (simp add: algebra_simps)
    then show ?thesis by blast
  next
    case False
    then have "wrap_above d = d - 2 * pi * real 0" by (simp add: wrap_above_id)
    then show ?thesis by blast
  qed
qed

lemma wrap_below_id: "- pi \<le> d \<Longrightarrow> wrap_below d = d"
  by (subst wrap_below.simps) simp

lemma wrap_below_neg: "wrap_below (- d) = - wrap_above d"
proof (induction d rule: wrap_above.induct)
  case (1 d)
  show ?case
  proof (cases "pi < d")
    case True
    with 1 have "wrap_below (- (d - 2 * pi)) = - wrap_above (d - 2 * pi)" by simp
    moreover have "wrap_below (- d) = wrap_below (- d + 2 * pi)"
      using True by (subst wrap_below.simps) simp
    moreover have "wrap_above d = wrap_above (d - 2 * pi)"
      using True by (subst wrap_above.simps) simp
    ultimately show ?thesis by (simp add: algebra_simps)
  next
    case False
    then show ?thesis by (simp add: wrap_above_id wrap_below_id)
  qed
qed

lemma wrap_above_neg: "wrap_above (- d) = - wrap_below d"
  using wrap_below_neg [of "- d"] by simp

lemma wrap_cases:
  "wrap_below (wrap_above d) = (if pi < d then wrap_above d else wrap_below d)"
proof (cases "pi < d")
  case True
  then have "- pi \<le> wrap_above d" using wrap_above_gt [of d] by simp
  then show ?thesis using True by (simp add: wrap_below_id)
next
  case False
  then show ?thesis by (simp add: wrap_above_id)
qed

lemma wrap_range: "- pi \<le> wrap_below (wrap_above d) \<and> wrap_below (wrap_above d) \<le> pi"
proof (cases "pi < d")
  case True
  then show ?thesis
    using wrap_above_gt [of d] wrap_above_le [of d] by (simp add: wrap_cases)
next
  case False
  have "- pi \<le> wrap_below d"
    using wrap_above_le [of "- d"] by (simp add: wrap_above_neg)
  moreover have "wrap_below d \<le> pi"
  proof (cases "d < - pi")
    case True
    then have "- pi < wrap_above (- d)" by (intro wrap_above_gt) simp
    then show ?thesis by (simp add: wrap_above_neg)
  next
    case False2: False
    with False show ?thesis by (simp add: wrap_below_id)
  qed
  ultimately show ?thesis using False by (simp add: wrap_cases)
qed

lemma wrap_shift: "\<exists>k::int. wrap_below (wrap_above d) = d + 2 * pi * of_int k"
proof (cases "pi < d")
  case True
  obtain n :: nat where n: "wrap_above d = d - 2 * pi * real n"
    using wrap_above_shift by blast
  have "wrap_below (wrap_above d) = wrap_above d"
    using True by (simp only: wrap_cases if_True)
  with n have "wrap_below (wrap_above d) = d + 2 * pi * of_int (- int n)"
    by simp
  then show ?thesis by blast
next
  case False
  obtain n :: nat where "wrap_above (- d) = - d - 2 * pi * real n"
    using wrap_above_shift by blast
  then have n: "wrap_below d = d + 2 * pi * real n"
    by (simp add: wrap_above_neg)
  have "wrap_below (wrap_above d) = wrap_below d"
    using False by (simp only: wrap_cases if_False)
  with n have "wrap_below (wrap_above d) = d + 2 * pi * of_int (int n)"
    by simp
  then show ?thesis by blast
qed

lemma wrap_odd: "wrap_below (wrap_above (- d)) = - wrap_below (wrap_above d)"
proof -
  consider "pi < d" | "d < - pi" | "- pi \<le> d \<and> d \<le> pi" by linarith
  then show ?thesis
  proof cases
    case 1
    then have "\<not> pi < - d" using pi_gt_zero by linarith
    then have "wrap_below (wrap_above (- d)) = wrap_below (- d)"
      by (simp only: wrap_cases if_False)
    moreover have "wrap_below (wrap_above d) = wrap_above d"
      using 1 by (simp only: wrap_cases if_True)
    ultimately show ?thesis by (simp only: wrap_below_neg)
  next
    case 2
    then have "pi < - d" "\<not> pi < d" using pi_gt_zero by linarith+
    then have "wrap_below (wrap_above (- d)) = wrap_above (- d)"
      "wrap_below (wrap_above d) = wrap_below d"
      by (simp_all only: wrap_cases if_True if_False)
    then show ?thesis by (simp only: wrap_above_neg)
  next
    case 3
    then show ?thesis by (simp add: wrap_above_id wrap_below_id)
  qed
qed

lemma degrees_radians: "degrees (radians x) = x"
  by (simp add: degrees_def radians_def)

lemma degrees_wrap_delta:
  "\<exists>k::int. degrees (wrap_below (wrap_above (radians a - radians b))) = a - b + 360 * of_int k"
proof -
  obtain k :: int where
    "wrap_below (wrap_above (radians a - radians b)) = radians a - radians b + 2 * pi * of_int k"
    using wrap_shift by blast
  then have "degrees (wrap_below (wrap_above (radians a - radians b))) = a - b + 360 * of_int k"
    by (simp add: degrees_def radians_def field_simps)
  then show ?thesis by blast
qed

lemma degrees_wrap_range:
  "- 180 \<le> degrees (wrap_below (wrap_above d)) \<and> degrees (wrap_below (wrap_above d)) \<le> 180"
proof -
  have r: "- pi \<le> wrap_below (wrap_above d)" "wrap_below (wrap_above d) \<le> pi"
    using wrap_range by blast+
  have "degrees (wrap_below (wrap_above d)) \<le> 180"
    using r(2) pi_gt_zero by (simp add: degrees_def field_simps)
  moreover have "- 180 \<le> degrees (wrap_below (wrap_above d))"
    using r(1) pi_gt_zero by (simp add: degrees_def field_simps)
  ultimately show ?thesis by simp
qed

lemma cos_dec_floor: "(if c < 0.1 then 0.1 else c) = max c (1 / 10 :: real)"
  by (simp add: max_def)

lemma az_error_eq:
  "az_error (calculate_pa_error cfg sra sd mra md lat)
   = degrees (wrap_below (wrap_above (radians sra - radians mra))) * 60
       / max (cos (radians md)) (1 / 10)"
  by (simp add: calculate_pa_error_def Let_def max_def)

lemma alt_error_eq:
  "alt_error (calculate_pa_error cfg sra sd mra md lat) = (sd - md) * 60"
  by (simp add: calculate_pa_error_def Let_def degrees_def radians_def field_simps)

lemma total_error_eq:
  "total_error (calculate_pa_error cfg sra sd mra md lat)
   = 60 * sqrt ((az_error (calculate_pa_error cfg sra sd mra md lat))\<^sup>2
                + (alt_error (calculate_pa_error cfg sra sd mra md lat))\<^sup>2)"
  by (simp add: calculate_pa_error_def Let_def)

text \<open>
  Claim C3. The azimuth error is the wrapped right-ascension difference (the difference
  plus a whole number of turns, of absolute value at most 180 degrees) in arcminutes,
  divided by the larger of the cosine of the reported declination and 0.1; the altitude
  error is the declination difference in arcminutes; the total error in arcseconds is
  60 times the square root of the sum of their squares. (Floats are read as reals.)
\<close>

theorem pa_error_formula:
  "(\<exists>(k::int) w. w = sra - mra + 360 * of_int k \<and> \<bar>w\<bar> \<le> 180
        \<and> az_error (calculate_pa_error cfg sra sd mra md lat)
            = w * 60 / max (cos (radians md)) (1 / 10))
   \<and> alt_error (calculate_pa_error cfg sra sd mra md lat) = (sd - md) * 60
   \<and> total_error (calculate_pa_error cfg sra sd mra md lat)
       = 60 * sqrt ((az_error (calculate_pa_error cfg sra sd mra md lat))\<^sup>2
                    + (alt_error (calculate_pa_error cfg sra sd mra md lat))\<^sup>2)"
proof -
  let ?w = "degrees (wrap_below (wrap_above (radians sra - radians mra)))"
  obtain k :: int where k: "?w = sra - mra + 360 * of_int k"
    using degrees_wrap_delta by blast
  have "\<bar>?w\<bar> \<le> 180"
    using degrees_wrap_range [of "radians sra - radians mra"] by (simp add: abs_le_iff)
  with k have "\<exists>(k::int) w. w = sra - mra + 360 * of_int k \<and> \<bar>w\<bar> \<le> 180
        \<and> az_error (calculate_pa_error cfg sra sd mra md lat)
            = w * 60 / max (cos (radians md)) (1 / 10)"
    using az_error_eq by metis
  then show ?thesis
    using alt_error_eq total_error_eq by blast
qed

subsection \<open>The seam of the right ascension\<close>

lemma wrap_358: "wrap_below (wrap_above (radians 359 - radians 1)) = - (pi / 90)"
proof -
  define x where "x = 358 * pi / 180"
  have gt: "pi < x" and le: "x - 2 * pi \<le> pi" and ge: "- pi \<le> x - 2 * pi"
    unfolding x_def using pi_gt_zero by linarith+
  have "wrap_above x = wrap_above (x - 2 * pi)"
    using gt by (subst wrap_above.simps) simp
  also have "\<dots> = x - 2 * pi"
    using le by (rule wrap_above_id)
  finally have "wrap_below (wrap_above x) = x - 2 * pi"
    using ge by (simp add: wrap_below_id)
  moreover have "radians 359 - radians 1 = x"
    unfolding x_def by (simp add: radians_def)
  moreover have "x - 2 * pi = - (pi / 90)"
    unfolding x_def by simp
  ultimately show ?thesis by simp
qed

lemma wrap_m358: "wrap_below (wrap_above (radians 1 - radians 359)) = pi / 90"
proof -
  have "radians 1 - radians 359 = - (radians 359 - radians 1)" by simp
  then show ?thesis using wrap_odd [of "radians 359 - radians 1"] wrap_358 by simp
qed

lemma cos_radians_60: "cos (radians 60) = 1 / 2"
proof -
  have r: "radians 60 = pi / 3" by (simp add: radians_def)
  show ?thesis unfolding r by (rule cos_60)
qed

lemma wrap_small: "\<bar>d\<bar> \<le> pi \<Longrightarrow> wrap_below (wrap_above d) = d"
  by (simp add: wrap_above_id wrap_below_id abs_le_iff)

text \<open>
  Claim C2, as stated, fails at the lower end of the interval: for a solved right
  ascension of 0 and a reported one of 180 degrees the difference of -180 degrees is
  left as it is (the loops test \<open>delta_ra < -pi\<close> strictly), so the wrapped difference is
  not above -180 degrees.
\<close>

theorem ra_wrap_counterexample:
  "az_error (calculate_pa_error default_config 0 0 180 0 None) / 60 = - 180
   \<and> \<not> (- 180 < az_error (calculate_pa_error default_config 0 0 180 0 None) / 60)"
proof -
  have r: "radians 0 - radians 180 = - pi" by (simp add: radians_def)
  have w: "wrap_below (wrap_above (- pi)) = - pi"
    by (simp add: wrap_above_id wrap_below_id)
  have c0: "cos (radians 0) = 1" by (simp add: radians_def)
  have d: "degrees (- pi) = - 180" by (simp add: degrees_def)
  have "az_error (calculate_pa_error default_config 0 0 180 0 None)
        = degrees (- pi) * 60 / max (cos (radians 0)) (1 / 10)"
    by (simp only: az_error_eq r w)
  then have "az_error (calculate_pa_error default_config 0 0 180 0 None) = - 10800"
    by (simp add: d c0)
  then show ?thesis by simp
qed

text \<open>
  Claim C2, amended. The right-ascension difference is wrapped into the closed interval
  from -180 to 180 degrees: the azimuth error is computed from the difference plus a whole
  number of turns, and that value lies between -180 and 180 degrees, both included.
  Which end is taken when the difference is an odd multiple of 180 degrees is left open.
  With the same reported declination, solved 359 and reported 1 degrees give the
  azimuth error of -2 degrees (-120 arcminutes over the floored cosine), and solved 1
  and reported 359 degrees give +2 degrees: equal magnitude, opposite sign.
\<close>

theorem ra_wrap_closed_interval:
  "(\<exists>(k::int) w. w = sra - mra + 360 * of_int k \<and> - 180 \<le> w \<and> w \<le> 180
        \<and> az_error (calculate_pa_error cfg sra sd mra md lat)
            = w * 60 / max (cos (radians md)) (1 / 10))
   \<and> az_error (calculate_pa_error cfg 359 sd 1 md lat) = - 120 / max (cos (radians md)) (1 / 10)
   \<and> az_error (calculate_pa_error cfg 1 sd' 359 md lat') = 120 / max (cos (radians md)) (1 / 10)"
proof -
  let ?w = "degrees (wrap_below (wrap_above (radians sra - radians mra)))"
  obtain k :: int where k: "?w = sra - mra + 360 * of_int k"
    using degrees_wrap_delta by blast
  have "- 180 \<le> ?w \<and> ?w \<le> 180"
    using degrees_wrap_range [of "radians sra - radians mra"] by simp
  with k have "\<exists>(k::int) w. w = sra - mra + 360 * of_int k \<and> - 180 \<le> w \<and> w \<le> 180
        \<and> az_error (calculate_pa_error cfg sra sd mra md lat)
            = w * 60 / max (cos (radians md)) (1 / 10)"
    using az_error_eq by metis
  moreover have "az_error (calculate_pa_error cfg 359 sd 1 md lat)
      = - 120 / max (cos (radians md)) (1 / 10)"
    by (simp add: az_error_eq wrap_358 degrees_def)
  moreover have "az_error (calculate_pa_error cfg 1 sd' 359 md lat')
      = 120 / max (cos (radians md)) (1 / 10)"
    by (simp add: az_error_eq wrap_m358 degrees_def)
  ultimately show ?thesis by blast
qed

subsection \<open>Swapping the solved and the reported position\<close>

text \<open>
  Claim C5, as stated, fails: the azimuth error is divided by the cosine of the second
  (reported) declination only. With solved (10, 0) and reported (0, 60) degrees, both
  cosines are at least 0.1, the azimuth error is 1200 arcminutes, and after the swap it
  is -600 arcminutes.
\<close>

theorem swap_counterexample:
  "1 / 10 \<le> cos (radians 0) \<and> 1 / 10 \<le> cos (radians 60)
   \<and> az_error (calculate_pa_error default_config 10 0 0 60 None) = 1200
   \<and> az_error (calculate_pa_error default_config 0 60 10 0 None) = - 600"
proof -
  have a: "\<bar>radians 10 - radians 0\<bar> \<le> pi" "\<bar>radians 0 - radians 10\<bar> \<le> pi"
    using pi_gt_zero by (simp_all add: radians_def)
  have c0: "cos (radians 0) = 1" by (simp add: radians_def)
  have d1: "degrees (radians 10 - radians 0) = 10" "degrees (radians 0 - radians 10) = - 10"
    by (simp_all add: degrees_def radians_def)
  have "az_error (calculate_pa_error default_config 10 0 0 60 None)
        = degrees (radians 10 - radians 0) * 60 / max (cos (radians 60)) (1 / 10)"
    by (simp only: az_error_eq wrap_small [OF a(1)])
  then have e1: "az_error (calculate_pa_error default_config 10 0 0 60 None) = 1200"
    by (simp add: d1 cos_radians_60)
  have "az_error (calculate_pa_error default_config 0 60 10 0 None)
        = degrees (radians 0 - radians 10) * 60 / max (cos (radians 0)) (1 / 10)"
    by (simp only: az_error_eq wrap_small [OF a(2)])
  then have e2: "az_error (calculate_pa_error default_config 0 60 10 0 None) = - 600"
    by (simp add: d1 c0)
  show ?thesis
    using e1 e2 by (simp add: c0 cos_radians_60)
qed

text \<open>
  Claim C5, amended. Swapping the solved and the reported position negates the altitude
  error. The two azimuth errors, each multiplied by its own divisor (the larger of 0.1
  and the cosine of the declination it was divided by), are negatives of each other;
  so the azimuth error is negated when the two divisors are equal, as when both
  positions have the same declination.
\<close>

theorem swap_negates:
  "alt_error (calculate_pa_error cfg mra md sra sd lat')
     = - alt_error (calculate_pa_error cfg sra sd mra md lat)
   \<and> az_error (calculate_pa_error cfg mra md sra sd lat') * max (cos (radians sd)) (1 / 10)
     = - (az_error (calculate_pa_error cfg sra sd mra md lat) * max (cos (radians md)) (1 / 10))
   \<and> (max (cos (radians sd)) (1 / 10) = max (cos (radians md)) (1 / 10) \<longrightarrow>
        az_error (calculate_pa_error cfg mra md sra sd lat')
          = - az_error (calculate_pa_error cfg sra sd mra md lat))"
proof -
  have pos: "0 < max (cos (radians x)) (1 / 10 :: real)" for x
    by (simp add: max_def)
  have odd: "wrap_below (wrap_above (radians mra - radians sra))
      = - wrap_below (wrap_above (radians sra - radians mra))"
    using wrap_odd [of "radians sra - radians mra"] by simp
  have alt: "alt_error (calculate_pa_error cfg mra md sra sd lat')
     = - alt_error (calculate_pa_error cfg sra sd mra md lat)"
    by (simp add: alt_error_eq)
  have az: "az_error (calculate_pa_error cfg mra md sra sd lat') * max (cos (radians sd)) (1 / 10)
     = - (az_error (calculate_pa_error cfg sra sd mra md lat) * max (cos (radians md)) (1 / 10))"
    using pos [of sd] pos [of md] by (simp add: az_error_eq odd degrees_def)
  have "max (cos (radians sd)) (1 / 10) = max (cos (radians md)) (1 / 10) \<Longrightarrow>
        az_error (calculate_pa_error cfg mra md sra sd lat')
          = - az_error (calculate_pa_error cfg sra sd mra md lat)"
    by (simp add: az_error_eq odd degrees_def)
  with alt az show ?thesis by blast
qed

theorem swap_negates_witness:
  "max (cos (radians 0)) (1 / 10) = max (cos (radians 0)) (1 / 10)
   \<and> az_error (calculate_pa_error default_config 0 0 10 0 None)
       = - az_error (calculate_pa_error default_config 10 0 0 0 None)
   \<and> az_error (calculate_pa_error default_config 10 0 0 0 None) = 600"
proof -
  have a: "\<bar>radians 10 - radians 0\<bar> \<le> pi"
    using pi_gt_zero by (simp add: radians_def)
  have c0: "cos (radians 0) = 1" by (simp add: radians_def)
  have d1: "degrees (radians 10 - radians 0) = 10"
    by (simp add: degrees_def radians_def)
  have "az_error (calculate_pa_error default_config 10 0 0 0 None)
        = degrees (radians 10 - radians 0) * 60 / max (cos (radians 0)) (1 / 10)"
    by (simp only: az_error_eq wrap_small [OF a])
  then have "az_error (calculate_pa_error default_config 10 0 0 0 None) = 600"
    by (simp add: d1 c0)
  then show ?thesis
    using swap_negates [of default_config 0 0 10 0 None None] by simp
qed

section \<open>Properties of the coordinate parsers\<close>

subsection \<open>The range of the floats\<close>

lemma float_overflow_large: "1000000 < float_overflow"
  by (simp add: float_overflow_def)

lemma float_overflow_pos: "0 < float_overflow"
  using float_overflow_large by linarith

lemma to_float_small: "\<bar>r\<bar> \<le> 1000000 \<Longrightarrow> to_float r = Finite r"
  using float_overflow_large by (simp add: to_float_def)

lemma float_of_int_small: "\<bar>i\<bar> \<le> 1000000 \<Longrightarrow> float_of_int i = Some (Finite (real_of_int i))"
proof -
  assume "\<bar>i\<bar> \<le> 1000000"
  then have "\<bar>real_of_int i\<bar> \<le> 1000000" by linarith
  then show ?thesis using float_overflow_large by (simp add: float_of_int_def)
qed

subsection \<open>Texts that \<open>int()\<close> and \<open>float()\<close> reject\<close>

lemma dropWhile_keeps: "c \<in> set xs \<Longrightarrow> \<not> P c \<Longrightarrow> c \<in> set (dropWhile P xs)"
  by (induction xs) auto

lemma strip_with_keeps: "c \<in> set s \<Longrightarrow> \<not> ws c \<Longrightarrow> c \<in> set (strip_with ws s)"
  by (simp add: strip_with_def dropWhile_keeps)

lemma digits_val_bad:
  "c \<in> set s \<Longrightarrow> digit_of c = None \<Longrightarrow> c \<noteq> CHR ''_'' \<Longrightarrow> digits_val acc prev s = None"
  by (induction s arbitrary: acc prev) (auto split: option.splits)

lemma py_int_rejects:
  assumes "c \<in> set s" and "\<not> int_char c"
  shows "py_int s = None"
proof -
  from assms(2) have bad: "digit_of c = None" "c \<noteq> CHR ''_''" "c \<noteq> CHR ''+''" "c \<noteq> CHR ''-''"
    "\<not> is_num_space c"
    by (auto simp add: int_char_def)
  have mem: "c \<in> set (strip_with is_num_space s)"
    using assms(1) bad(5) by (rule strip_with_keeps)
  show ?thesis
  proof (cases "strip_with is_num_space s")
    case Nil
    then show ?thesis by (simp add: py_int_def)
  next
    case (Cons x xs)
    with mem have "c = x \<or> c \<in> set xs" by simp
    then have "(x = CHR ''-'' \<or> x = CHR ''+'') \<longrightarrow> digits_val 0 False xs = None"
      and "digits_val 0 False (x # xs) = None"
      using bad digits_val_bad [of c xs 0 False] digits_val_bad [of c "x # xs" 0 False]
      by auto
    then show ?thesis using Cons by (auto simp add: py_int_def)
  qed
qed

lemma fstep_bad:
  "digit_of c = None \<Longrightarrow> c \<notin> set ''+-_.eE'' \<Longrightarrow> fstep q c = None"
  by (cases q) (simp_all add: is_e_def)

lemma frun_bad:
  "c \<in> set s \<Longrightarrow> digit_of c = None \<Longrightarrow> c \<notin> set ''+-_.eE'' \<Longrightarrow> frun q s = None"
proof (induction s arbitrary: q)
  case Nil
  then show ?case by simp
next
  case (Cons x xs)
  show ?case
  proof (cases "c = x")
    case True
    with Cons.prems have "fstep q x = None" by (simp add: fstep_bad)
    then show ?thesis by simp
  next
    case False
    with Cons.prems have "c \<in> set xs" by simp
    with Cons show ?thesis by (simp split: option.splits)
  qed
qed

lemma list_all2_left_witness:
  "list_all2 P xs ys \<Longrightarrow> x \<in> set xs \<Longrightarrow> \<exists>y \<in> set ys. P x y"
  by (induction rule: list_all2_induct) auto

lemma ci_equal_chars:
  assumes "ci_equal lo up b" and "c \<in> set b"
  shows "c \<in> set lo \<or> c \<in> set up"
proof -
  from assms(1) have "list_all2 (\<lambda>c (l, u). c = l \<or> c = u) b (zip lo up)"
    by (simp add: ci_equal_def)
  from list_all2_left_witness [OF this assms(2)]
  obtain y where y: "y \<in> set (zip lo up)" "(\<lambda>c (l, u). c = l \<or> c = u) c y"
    by blast
  obtain l u where lu: "y = (l, u)" by (cases y)
  with y have "(l, u) \<in> set (zip lo up)" "c = l \<or> c = u" by simp_all
  then show ?thesis
    by (auto dest: set_zip_leftD set_zip_rightD)
qed

lemma float_body_rejects:
  assumes "c \<in> set b" and bad: "digit_of c = None" "c \<notin> set ''+-_.eE''" "c \<notin> set ''infatyINFATY''"
  shows "float_body b = None"
proof -
  have words: "\<not> ci_equal lo up b" if "set lo \<union> set up \<subseteq> set ''infatyINFATY''" for lo up
  proof
    assume "ci_equal lo up b"
    from ci_equal_chars [OF this assms(1)] have "c \<in> set lo \<union> set up" by simp
    with that bad(3) show False by blast
  qed
  have "\<not> ci_equal ''inf'' ''INF'' b" "\<not> ci_equal ''infinity'' ''INFINITY'' b"
    "\<not> ci_equal ''nan'' ''NAN'' b"
    by (rule words, simp)+
  moreover have "frun FStart b = None"
    using assms(1) bad(1,2) by (rule frun_bad)
  ultimately show ?thesis by (simp add: float_body_def)
qed

lemma py_float_rejects:
  assumes "c \<in> set s" and "\<not> float_char c"
  shows "py_float s = None"
proof -
  from assms(2) have bad: "digit_of c = None" "c \<notin> set ''+-_.eE''" "c \<notin> set ''infatyINFATY''"
    and ns: "\<not> is_num_space c"
    by (auto simp add: float_char_def)
  have mem: "c \<in> set (strip_with is_num_space s)"
    using assms(1) ns by (rule strip_with_keeps)
  show ?thesis
  proof (cases "strip_with is_num_space s")
    case Nil
    then show ?thesis by (simp add: py_float_def)
  next
    case (Cons x xs)
    have sign: "c \<noteq> CHR ''-''" "c \<noteq> CHR ''+''" using bad(2) by auto
    from Cons mem have "c = x \<or> c \<in> set xs" by simp
    then have "(x = CHR ''-'' \<or> x = CHR ''+'') \<longrightarrow> float_body xs = None"
      and "float_body (x # xs) = None"
      using sign float_body_rejects [OF _ bad, of xs] float_body_rejects [OF _ bad, of "x # xs"]
      by auto
    then show ?thesis using Cons by (auto simp add: py_float_def)
  qed
qed

lemma colon_not_float_char: "\<not> float_char CHR '':''"
  by (simp add: float_char_def digit_of_def is_num_space_def)

lemma py_float_colon: "CHR '':'' \<in> set s \<Longrightarrow> py_float s = None"
  using py_float_rejects colon_not_float_char by blast

lemma colon_not_space: "\<not> is_space CHR '':''"
  by (simp add: is_space_def)

lemma strip_with_subset: "set (strip_with ws s) \<subseteq> set s"
proof -
  have "set (dropWhile ws xs) \<subseteq> set xs" for xs :: string
    by (auto dest: set_dropWhileD)
  then show ?thesis
    unfolding strip_with_def by (metis set_rev subset_trans)
qed

lemma digits_val_needs_digit:
  "digits_val acc prev s = Some v \<Longrightarrow> prev \<or> has_digit s"
  by (induction s arbitrary: acc prev) (auto simp add: has_digit_def split: option.splits if_splits)

lemma has_digit_mono: "has_digit xs \<Longrightarrow> set xs \<subseteq> set ys \<Longrightarrow> has_digit ys"
  by (auto simp add: has_digit_def list_ex_iff)

lemma not_number_char_not_int_char: "\<not> number_char c \<Longrightarrow> \<not> int_char c"
  by (auto simp add: number_char_def int_char_def)

lemma py_int_non_numeric:
  assumes "non_numeric s"
  shows "py_int s = None"
proof (cases "has_digit s")
  case True
  with assms obtain c where "c \<in> set s" "\<not> number_char c"
    by (auto simp add: non_numeric_def list_ex_iff)
  then show ?thesis
    using py_int_rejects not_number_char_not_int_char by blast
next
  case False
  have nd: "\<not> has_digit xs" if "set xs \<subseteq> set (strip_with is_num_space s)" for xs
    using that False has_digit_mono strip_with_subset by (metis subset_trans)
  show ?thesis
  proof (cases "strip_with is_num_space s")
    case Nil
    then show ?thesis by (simp add: py_int_def)
  next
    case (Cons x xs)
    have "digits_val 0 False xs = None" "digits_val 0 False (x # xs) = None"
      using digits_val_needs_digit [of 0 False xs] digits_val_needs_digit [of 0 False "x # xs"]
        nd [of xs] nd [of "x # xs"] Cons
      by (cases "digits_val 0 False xs"; cases "digits_val 0 False (x # xs)"; auto)+
    then show ?thesis using Cons by (simp add: py_int_def)
  qed
qed

lemma fstep_digit_seen:
  "fstep q c = Some q' \<Longrightarrow> digit_seen q' \<Longrightarrow> digit_seen q \<or> digit_of c \<noteq> None"
  by (cases q) (auto split: option.splits if_splits)

lemma ffinal_digit_seen: "ffinal q = Some v \<Longrightarrow> digit_seen q"
  by (cases q) auto

lemma frun_needs_digit: "frun q s = Some v \<Longrightarrow> digit_seen q \<or> has_digit s"
proof (induction s arbitrary: q)
  case Nil
  then show ?case by (simp add: ffinal_digit_seen)
next
  case (Cons c cs)
  from Cons.prems obtain q' where st: "fstep q c = Some q'" and run: "frun q' cs = Some v"
    by (auto split: option.splits)
  from Cons.IH [OF run] have "digit_seen q' \<or> has_digit cs" .
  then show ?case
  proof
    assume "digit_seen q'"
    with st have "digit_seen q \<or> digit_of c \<noteq> None" by (rule fstep_digit_seen)
    then show ?thesis by (auto simp add: has_digit_def)
  next
    assume "has_digit cs"
    then show ?thesis by (simp add: has_digit_def)
  qed
qed

lemma float_body_non_numeric:
  assumes nn: "\<not> has_digit b \<or> (\<exists>c \<in> set b. digit_of c = None \<and> c \<notin> set ''+-_.eE'')"
    and nw: "\<not> (ci_equal ''inf'' ''INF'' b \<or> ci_equal ''infinity'' ''INFINITY'' b
                 \<or> ci_equal ''nan'' ''NAN'' b)"
  shows "float_body b = None"
proof -
  have "frun FStart b = None"
  proof (cases "has_digit b")
    case True
    with nn obtain c where "c \<in> set b" "digit_of c = None" "c \<notin> set ''+-_.eE''" by blast
    then show ?thesis by (rule frun_bad)
  next
    case False
    show ?thesis
    proof (cases "frun FStart b")
      case None
      then show ?thesis .
    next
      case (Some v)
      from frun_needs_digit [OF this] False show ?thesis by simp
    qed
  qed
  with nw show ?thesis by (simp add: float_body_def)
qed

lemma py_float_non_numeric:
  assumes nn: "non_numeric s" and nw: "\<not> is_float_word s"
  shows "py_float s = None"
proof (cases "strip_with is_num_space s")
  case Nil
  then show ?thesis by (simp add: py_float_def)
next
  case (Cons x xs)
  define b where "b = (if x = CHR ''-'' \<or> x = CHR ''+'' then xs else x # xs)"
  have words: "\<not> (ci_equal ''inf'' ''INF'' b \<or> ci_equal ''infinity'' ''INFINITY'' b
                 \<or> ci_equal ''nan'' ''NAN'' b)"
    using nw Cons by (simp add: is_float_word_def b_def Let_def)
  have sub: "set b \<subseteq> set s"
    using strip_with_subset [of is_num_space s] Cons by (auto simp add: b_def)
  have "\<not> has_digit b \<or> (\<exists>c \<in> set b. digit_of c = None \<and> c \<notin> set ''+-_.eE'')"
  proof (cases "has_digit s")
    case False
    then show ?thesis using has_digit_mono [OF _ sub] by blast
  next
    case True
    with nn obtain c where c: "c \<in> set s" "\<not> number_char c"
      by (auto simp add: non_numeric_def list_ex_iff)
    then have bad: "digit_of c = None" "c \<notin> set ''+-_.eE''" "\<not> is_num_space c"
      by (auto simp add: number_char_def)
    have "c \<in> set (x # xs)"
      using strip_with_keeps [of c s is_num_space] c(1) bad(3) Cons by simp
    moreover have "c \<noteq> CHR ''-''" "c \<noteq> CHR ''+''" using bad(2) by auto
    ultimately have "c \<in> set b" by (auto simp add: b_def)
    with bad show ?thesis by blast
  qed
  then have "float_body b = None" using words by (rule float_body_non_numeric)
  then show ?thesis using Cons by (auto simp add: py_float_def b_def)
qed

subsection \<open>Separators of the declination text\<close>

text \<open>The definitions to unfold when a parser is run on a given text.\<close>

lemmas parse_eval = parse_dec_string_def parse_ra_string_def strip_def strip_with_def is_space_def
  is_num_space_def py_int_def py_float_def float_body_def ci_equal_def digit_of_def
  pf_div_const_def dec_normalise_def replace_char_def remove_char_def is_e_def Let_def
  max_str_digits_def to_float_small float_of_int_small

lemma strip_with_map:
  assumes "\<And>c. ws (f c) = ws c"
  shows "strip_with ws (map f s) = map f (strip_with ws s)"
proof -
  have comp: "ws \<circ> f = ws" using assms by (simp add: fun_eq_iff)
  have d: "dropWhile ws (map f xs) = map f (dropWhile ws xs)" for xs
    by (simp only: dropWhile_map comp)
  show ?thesis
    by (simp only: strip_with_def d rev_map)
qed

lemma dec_normalise_map:
  assumes "\<And>c. f c = c \<or> (dec_separator c \<and> dec_separator (f c))"
  shows "dec_normalise (map f s) = dec_normalise s"
proof -
  have "(if (if f c = CHR ''*'' then CHR '':'' else f c) = CHR 0x27 then CHR '':''
         else (if f c = CHR ''*'' then CHR '':'' else f c))
      = (if (if c = CHR ''*'' then CHR '':'' else c) = CHR 0x27 then CHR '':''
         else (if c = CHR ''*'' then CHR '':'' else c))" for c
    using assms [of c] by (auto simp add: dec_separator_def)
  then show ?thesis
    by (simp add: dec_normalise_def replace_char_def comp_def)
qed

lemma sep_not_space: "dec_separator c \<Longrightarrow> \<not> is_space c"
  by (auto simp add: dec_separator_def is_space_def)

lemma sep_not_sign: "dec_separator c \<Longrightarrow> c \<noteq> CHR ''-'' \<and> c \<noteq> CHR ''+''"
  by (auto simp add: dec_separator_def)

lemma parse_dec_string_map:
  assumes f: "\<And>c. f c = c \<or> (dec_separator c \<and> dec_separator (f c))"
  shows "parse_dec_string (map f s) = parse_dec_string s"
proof -
  have sp: "is_space (f c) = is_space c" for c
    using f [of c] sep_not_space [of c] sep_not_space [of "f c"] by metis
  have strip: "strip (map f s) = map f (strip s)"
    unfolding strip_def using sp by (rule strip_with_map)
  show ?thesis
  proof (cases "strip s")
    case Nil
    then show ?thesis by (simp add: parse_dec_string_def strip)
  next
    case (Cons c rest)
    have minus: "(f c = CHR ''-'') = (c = CHR ''-'')" and plus: "(f c = CHR ''+'') = (c = CHR ''+'')"
      using f [of c] sep_not_sign [of c] sep_not_sign [of "f c"] by metis+
    have n1: "dec_normalise (map f rest) = dec_normalise rest"
      by (rule dec_normalise_map [OF f])
    have "dec_normalise (map f (c # rest)) = dec_normalise (c # rest)"
      by (rule dec_normalise_map [OF f])
    then have n2: "dec_normalise (f c # map f rest) = dec_normalise (c # rest)"
      by simp
    have stripf: "strip (map f s) = f c # map f rest"
      by (simp add: strip Cons)
    show ?thesis
    proof (cases "c = CHR ''-'' \<or> c = CHR ''+''")
      case True
      then have "f c = CHR ''-'' \<or> f c = CHR ''+''" by (simp add: minus plus)
      then show ?thesis
        using True
        by (simp only: parse_dec_string_def stripf Cons list.case Let_def if_True minus n1)
    next
      case False
      then have "\<not> (f c = CHR ''-'' \<or> f c = CHR ''+'')" by (simp add: minus plus)
      then show ?thesis
        using False
        by (simp only: parse_dec_string_def stripf Cons list.case Let_def if_False minus n2)
    qed
  qed
qed

text \<open>
  Claim C6, as stated, fails for the double quote: it is deleted, not turned into a
  colon. Written with double quotes between the components, 10 30 00 becomes the single
  field \<open>103000\<close> and is read as 103000 degrees, whereas with colons it is 10.5 degrees.
\<close>

theorem dec_double_quote_counterexample:
  "parse_dec_string (''10'' @ [CHR 0x22] @ ''30'' @ [CHR 0x22] @ ''00'') = Some (Finite 103000)
   \<and> parse_dec_string (''10'' @ [CHR '':''] @ ''30'' @ [CHR '':''] @ ''00'') = Some (Finite (21 / 2))"
  by (simp add: parse_eval)

text \<open>
  Claim C6, amended. The colon, the star and the single quote are interchangeable
  separators for \<open>parse_dec_string\<close>: for all component texts (the sign is part of the
  first one), the text written with any two of these three characters between the
  components parses to the same result as with any other two. (The double quote is not
  a separator; it is deleted from the text.)
\<close>

theorem dec_separators_interchangeable:
  assumes "dec_separator a" "dec_separator b" "dec_separator a'" "dec_separator b'"
  shows "parse_dec_string (d @ [a] @ m @ [b] @ sec) = parse_dec_string (d @ [a'] @ m @ [b'] @ sec)"
proof -
  define g where "g = (\<lambda>c. if dec_separator c then CHR '':'' else c)"
  have g: "g c = c \<or> (dec_separator c \<and> dec_separator (g c))" for c
    by (simp add: g_def dec_separator_def)
  have eq: "map g (d @ [a] @ m @ [b] @ sec) = map g (d @ [a'] @ m @ [b'] @ sec)"
    using assms by (simp add: g_def)
  have inv: "parse_dec_string (map g x) = parse_dec_string x" for x
    by (rule parse_dec_string_map [of g, OF g])
  have "parse_dec_string (d @ [a] @ m @ [b] @ sec) = parse_dec_string (map g (d @ [a] @ m @ [b] @ sec))"
    by (rule inv [symmetric])
  also have "\<dots> = parse_dec_string (map g (d @ [a'] @ m @ [b'] @ sec))"
    by (simp only: eq)
  also have "\<dots> = parse_dec_string (d @ [a'] @ m @ [b'] @ sec)"
    by (rule inv)
  finally show ?thesis .
qed

theorem dec_separators_interchangeable_witness:
  "dec_separator CHR ''*'' \<and> dec_separator (CHR 0x27) \<and> dec_separator CHR '':''
   \<and> parse_dec_string (''-10'' @ [CHR ''*''] @ ''30'' @ [CHR 0x27] @ ''15'')
       = parse_dec_string (''-10'' @ [CHR '':''] @ ''30'' @ [CHR '':''] @ ''15'')
   \<and> parse_dec_string (''-10'' @ [CHR '':''] @ ''30'' @ [CHR '':''] @ ''15'')
       = Some (Finite (- (10 + 30 / 60 + 15 / 3600)))"
proof -
  have s: "dec_separator CHR ''*''" "dec_separator (CHR 0x27)" "dec_separator CHR '':''"
    by (simp_all add: dec_separator_def)
  have v: "parse_dec_string (''-10'' @ [CHR '':''] @ ''30'' @ [CHR '':''] @ ''15'')
       = Some (Finite (- (10 + 30 / 60 + 15 / 3600)))"
    by (simp add: parse_eval)
  show ?thesis
    using s v dec_separators_interchangeable [OF s(1) s(2) s(3) s(3), of "''-10''" "''30''" "''15''"]
    by simp
qed

subsection \<open>Malformed coordinate texts\<close>

lemma colon_in_strip: "CHR '':'' \<in> set s \<Longrightarrow> CHR '':'' \<in> set (strip s)"
  by (simp add: strip_def strip_with_keeps colon_not_space)

lemma parse_ra_not_three:
  assumes "length (split_on CHR '':'' (strip s)) \<noteq> 3"
  shows "parse_ra_string s = map_option (pf_scale 15) (py_float (strip s))"
  using assms by (simp add: parse_ra_string_def Let_def split: option.splits)

lemma parse_ra_three:
  assumes "length (split_on CHR '':'' (strip s)) = 3"
    and "py_int (split_on CHR '':'' (strip s) ! 0) = None
         \<or> py_int (split_on CHR '':'' (strip s) ! 1) = None
         \<or> py_float (split_on CHR '':'' (strip s) ! 2) = None"
  shows "parse_ra_string s = None"
  using assms by (auto simp add: parse_ra_string_def Let_def split: option.splits)

lemma parse_dec_unfold:
  assumes "strip t = c # rest"
    and "parts = split_on CHR '':'' (dec_normalise (if c = CHR ''-'' \<or> c = CHR ''+'' then rest else c # rest))"
  shows "parse_dec_string t =
     (if length parts \<ge> 2 then
        (case py_int (parts ! 0) of None \<Rightarrow> None | Some degs \<Rightarrow>
         (case py_int (parts ! 1) of None \<Rightarrow> None | Some minutes \<Rightarrow>
          (case (if length parts > 2 then py_float (parts ! 2) else Some (Finite 0)) of
             None \<Rightarrow> None
           | Some seconds \<Rightarrow>
              (case float_of_int minutes of None \<Rightarrow> None | Some minutes_f \<Rightarrow>
               (case float_of_int degs of None \<Rightarrow> None | Some degs_f \<Rightarrow>
                  Some (pf_scale (if c = CHR ''-'' then - 1 else 1)
                         (pf_add (pf_add degs_f (pf_div_const minutes_f 60))
                                 (pf_div_const seconds 3600))))))))
      else
        (case py_float (dec_normalise (if c = CHR ''-'' \<or> c = CHR ''+'' then rest else c # rest)) of
           None \<Rightarrow> None
         | Some d \<Rightarrow> Some (pf_scale (if c = CHR ''-'' then - 1 else 1) d)))"
  by (simp only: parse_dec_string_def assms list.case Let_def)

lemma to_float_id: "\<bar>r\<bar> < float_overflow \<Longrightarrow> to_float r = Finite r"
  by (simp add: to_float_def)

lemma dec_two_fields_value:
  assumes dg: "\<bar>real_of_int dg\<bar> < float_overflow"
    and mn: "\<bar>real_of_int mn\<bar> < float_overflow"
    and sum: "\<bar>real_of_int dg + real_of_int mn / 60\<bar> < float_overflow"
    and sg: "sg = 1 \<or> sg = - 1"
  shows "(case float_of_int mn of None \<Rightarrow> None | Some minutes_f \<Rightarrow>
           (case float_of_int dg of None \<Rightarrow> None | Some degs_f \<Rightarrow>
              Some (pf_scale sg
                     (pf_add (pf_add degs_f (pf_div_const minutes_f 60))
                             (pf_div_const (Finite 0) 3600)))))
         = Some (Finite (sg * (real_of_int dg + real_of_int mn / 60)))"
proof -
  have m60: "\<bar>real_of_int mn / 60\<bar> < float_overflow"
    using mn by simp
  have d1: "pf_div_const (Finite (real_of_int mn)) 60 = Finite (real_of_int mn / 60)"
    using m60 by (simp add: pf_div_const_def to_float_id)
  have d2: "pf_div_const (Finite 0) 3600 = Finite 0"
    using float_overflow_pos by (simp add: pf_div_const_def to_float_id)
  have tf: "to_float (real_of_int dg + real_of_int mn / 60)
            = Finite (real_of_int dg + real_of_int mn / 60)"
    using sum by (rule to_float_id)
  have "\<bar>sg * (real_of_int dg + real_of_int mn / 60)\<bar> < float_overflow"
    using sum sg by (auto simp add: abs_mult)
  then have tf2: "to_float (sg * (real_of_int dg + real_of_int mn / 60))
            = Finite (sg * (real_of_int dg + real_of_int mn / 60))"
    by (rule to_float_id)
  show ?thesis
    using dg mn by (simp add: float_of_int_def d1 d2 tf tf2)
qed

text \<open>The definitions to unfold when the notions of the statements are evaluated.\<close>

lemmas notion_eval = ascii_text_def non_numeric_def has_digit_def number_char_def
  is_float_word_def

text \<open>
  Claim C7, as stated, fails for the declination: the number of fields is not checked
  there. \<open>10:30\<close>, a text of two fields and so not of the form DD:MM:SS, is read as
  10.5 degrees.
\<close>

theorem dec_two_fields_counterexample:
  "length (split_on CHR '':'' ''10:30'') = 2
   \<and> parse_dec_string ''10:30'' = Some (Finite (21 / 2))"
  by (simp add: parse_eval)

text \<open>
  Claim C7, amended. For ASCII texts:
  \<open>parse_ra_string\<close> returns \<open>None\<close> for every text with a colon that does not have
  three fields, for every text of three fields with a non-numeric hours, minutes or
  seconds component, and for every other text that is non-numeric.
  \<open>parse_dec_string\<close> returns \<open>None\<close> for the empty text, for a text of one field that
  is non-numeric, and for every text whose degrees, minutes or seconds component (the
  first, second and, if present, third field) is non-numeric; it does not check the
  number of fields: a text of two numeric fields is accepted as degrees and minutes,
  with zero seconds (its value is given where the numbers are in the range of the
  floats).
  A component is non-numeric when it has no digit or has a character that cannot occur
  in a number. Nothing is said about the words \<open>inf\<close>, \<open>infinity\<close> and \<open>nan\<close> as
  seconds or as the whole text, which \<open>float()\<close> reads as non-finite values.
\<close>

theorem malformed_input_fails:
  "(ascii_text s \<longrightarrow>
      (CHR '':'' \<in> set s \<and> length (split_on CHR '':'' (strip s)) \<noteq> 3
         \<longrightarrow> parse_ra_string s = None)
    \<and> (length (split_on CHR '':'' (strip s)) \<noteq> 3
         \<and> non_numeric (strip s) \<and> \<not> is_float_word (strip s)
         \<longrightarrow> parse_ra_string s = None)
    \<and> (length (split_on CHR '':'' (strip s)) = 3
         \<and> (non_numeric (split_on CHR '':'' (strip s) ! 0)
              \<or> non_numeric (split_on CHR '':'' (strip s) ! 1)
              \<or> (non_numeric (split_on CHR '':'' (strip s) ! 2)
                   \<and> \<not> is_float_word (split_on CHR '':'' (strip s) ! 2)))
         \<longrightarrow> parse_ra_string s = None))
   \<and> (ascii_text t \<longrightarrow>
      (strip t = [] \<longrightarrow> parse_dec_string t = None)
    \<and> (strip t = c # rest
         \<and> body = dec_normalise (if c = CHR ''-'' \<or> c = CHR ''+'' then rest else c # rest)
         \<and> parts = split_on CHR '':'' body
         \<longrightarrow> (length parts = 1 \<and> non_numeric body \<and> \<not> is_float_word body
                \<longrightarrow> parse_dec_string t = None)
             \<and> (2 \<le> length parts \<and> (non_numeric (parts ! 0) \<or> non_numeric (parts ! 1))
                  \<longrightarrow> parse_dec_string t = None)
             \<and> (3 \<le> length parts \<and> non_numeric (parts ! 2) \<and> \<not> is_float_word (parts ! 2)
                  \<longrightarrow> parse_dec_string t = None)
             \<and> (length parts = 2 \<and> py_int (parts ! 0) = Some dg \<and> py_int (parts ! 1) = Some mn
                  \<and> \<bar>real_of_int dg\<bar> < float_overflow \<and> \<bar>real_of_int mn\<bar> < float_overflow
                  \<and> \<bar>real_of_int dg + real_of_int mn / 60\<bar> < float_overflow
                  \<longrightarrow> parse_dec_string t
                        = Some (Finite ((if c = CHR ''-'' then - 1 else 1)
                                         * (real_of_int dg + real_of_int mn / 60))))))"
proof -
  have ra1: "parse_ra_string s = None"
    if "CHR '':'' \<in> set s" "length (split_on CHR '':'' (strip s)) \<noteq> 3"
    using that colon_in_strip [of s] py_float_colon [of "strip s"]
    by (simp add: parse_ra_not_three)
  have ra2: "parse_ra_string s = None"
    if "length (split_on CHR '':'' (strip s)) \<noteq> 3" "non_numeric (strip s)"
       "\<not> is_float_word (strip s)"
    using that py_float_non_numeric [of "strip s"] by (simp add: parse_ra_not_three)
  have ra3: "parse_ra_string s = None"
    if l: "length (split_on CHR '':'' (strip s)) = 3"
      and n: "non_numeric (split_on CHR '':'' (strip s) ! 0)
              \<or> non_numeric (split_on CHR '':'' (strip s) ! 1)
              \<or> (non_numeric (split_on CHR '':'' (strip s) ! 2)
                   \<and> \<not> is_float_word (split_on CHR '':'' (strip s) ! 2))"
  proof -
    have "py_int (split_on CHR '':'' (strip s) ! 0) = None
         \<or> py_int (split_on CHR '':'' (strip s) ! 1) = None
         \<or> py_float (split_on CHR '':'' (strip s) ! 2) = None"
      using n py_int_non_numeric py_float_non_numeric by auto
    with l show ?thesis by (rule parse_ra_three)
  qed
  have dec0: "parse_dec_string t = None" if "strip t = []"
    using that by (simp add: parse_dec_string_def)
  have dec: "(length parts = 1 \<and> non_numeric body \<and> \<not> is_float_word body
                \<longrightarrow> parse_dec_string t = None)
             \<and> (2 \<le> length parts \<and> (non_numeric (parts ! 0) \<or> non_numeric (parts ! 1))
                  \<longrightarrow> parse_dec_string t = None)
             \<and> (3 \<le> length parts \<and> non_numeric (parts ! 2) \<and> \<not> is_float_word (parts ! 2)
                  \<longrightarrow> parse_dec_string t = None)
             \<and> (length parts = 2 \<and> py_int (parts ! 0) = Some dg \<and> py_int (parts ! 1) = Some mn
                  \<and> \<bar>real_of_int dg\<bar> < float_overflow \<and> \<bar>real_of_int mn\<bar> < float_overflow
                  \<and> \<bar>real_of_int dg + real_of_int mn / 60\<bar> < float_overflow
                  \<longrightarrow> parse_dec_string t
                        = Some (Finite ((if c = CHR ''-'' then - 1 else 1)
                                         * (real_of_int dg + real_of_int mn / 60))))"
    if a: "strip t = c # rest"
      and b: "body = dec_normalise (if c = CHR ''-'' \<or> c = CHR ''+'' then rest else c # rest)"
      and p: "parts = split_on CHR '':'' body"
  proof -
    note u = parse_dec_unfold [OF a p [unfolded b]]
    have c1: "parse_dec_string t = None"
      if "length parts = 1" "non_numeric body" "\<not> is_float_word body"
      using that py_float_non_numeric [of body] by (simp add: u b)
    have c2: "parse_dec_string t = None"
      if "2 \<le> length parts" "non_numeric (parts ! 0) \<or> non_numeric (parts ! 1)"
    proof -
      have "py_int (parts ! 0) = None \<or> py_int (parts ! 1) = None"
        using that(2) py_int_non_numeric by auto
      with that(1) show ?thesis by (auto simp add: u split: option.splits)
    qed
    have c3: "parse_dec_string t = None"
      if "3 \<le> length parts" "non_numeric (parts ! 2)" "\<not> is_float_word (parts ! 2)"
    proof -
      from that have "py_float (parts ! 2) = None" by (simp add: py_float_non_numeric)
      with that(1) show ?thesis by (simp add: u split: option.splits)
    qed
    have c4: "parse_dec_string t
               = Some (Finite ((if c = CHR ''-'' then - 1 else 1)
                                * (real_of_int dg + real_of_int mn / 60)))"
      if l: "length parts = 2" and i: "py_int (parts ! 0) = Some dg" "py_int (parts ! 1) = Some mn"
        and r: "\<bar>real_of_int dg\<bar> < float_overflow" "\<bar>real_of_int mn\<bar> < float_overflow"
          "\<bar>real_of_int dg + real_of_int mn / 60\<bar> < float_overflow"
    proof -
      have sg: "(if c = CHR ''-'' then - 1 else 1 :: real) = 1
                \<or> (if c = CHR ''-'' then - 1 else 1 :: real) = - 1"
        by simp
      have "parse_dec_string t
            = (case float_of_int mn of None \<Rightarrow> None | Some minutes_f \<Rightarrow>
                (case float_of_int dg of None \<Rightarrow> None | Some degs_f \<Rightarrow>
                   Some (pf_scale (if c = CHR ''-'' then - 1 else 1)
                          (pf_add (pf_add degs_f (pf_div_const minutes_f 60))
                                  (pf_div_const (Finite 0) 3600)))))"
        using l i by (simp add: u)
      also have "\<dots> = Some (Finite ((if c = CHR ''-'' then - 1 else 1)
                                * (real_of_int dg + real_of_int mn / 60)))"
        using r sg by (rule dec_two_fields_value)
      finally show ?thesis .
    qed
    from c1 c2 c3 c4 show ?thesis by blast
  qed
  from ra1 ra2 ra3 dec0 dec show ?thesis by blast
qed

theorem malformed_input_fails_witness:
  "parse_ra_string ''12:30'' = None
   \<and> parse_ra_string ''12h'' = None
   \<and> parse_ra_string ''12:xx:00'' = None
   \<and> parse_dec_string '' '' = None
   \<and> parse_dec_string ''+abc'' = None
   \<and> parse_dec_string ''-10*xx'' = None
   \<and> parse_dec_string ''-10*30:1x'' = None
   \<and> parse_dec_string ''-10*30'' = Some (Finite (- (21 / 2)))"
proof -
  have asc: "ascii_text ''12:30''" "ascii_text ''12h''" "ascii_text ''12:xx:00''"
    "ascii_text '' ''" "ascii_text ''+abc''" "ascii_text ''-10*xx''" "ascii_text ''-10*30:1x''"
    "ascii_text ''-10*30''"
    by (simp_all add: ascii_text_def)
  have ra_a: "CHR '':'' \<in> set ''12:30''" "length (split_on CHR '':'' (strip ''12:30'')) \<noteq> 3"
    by (simp_all add: parse_eval)
  have ra_b: "length (split_on CHR '':'' (strip ''12h'')) \<noteq> 3" "non_numeric (strip ''12h'')"
    "\<not> is_float_word (strip ''12h'')"
    by (simp_all add: parse_eval notion_eval)
  have ra_c: "length (split_on CHR '':'' (strip ''12:xx:00'')) = 3"
    "non_numeric (split_on CHR '':'' (strip ''12:xx:00'') ! 1)"
    by (simp_all add: parse_eval notion_eval)
  have d0: "strip '' '' = []"
    by (simp add: parse_eval)
  have d1: "strip ''+abc'' = CHR ''+'' # ''abc''" "dec_normalise ''abc'' = ''abc''"
    "split_on CHR '':'' ''abc'' = [''abc'']" "non_numeric ''abc''" "\<not> is_float_word ''abc''"
    by (simp_all add: parse_eval notion_eval)
  have d2: "strip ''-10*xx'' = CHR ''-'' # ''10*xx''" "dec_normalise ''10*xx'' = ''10:xx''"
    "split_on CHR '':'' ''10:xx'' = [''10'', ''xx'']" "non_numeric ''xx''"
    by (simp_all add: parse_eval notion_eval)
  have d3: "strip ''-10*30:1x'' = CHR ''-'' # ''10*30:1x''"
    "dec_normalise ''10*30:1x'' = ''10:30:1x''"
    "split_on CHR '':'' ''10:30:1x'' = [''10'', ''30'', ''1x'']" "non_numeric ''1x''"
    "\<not> is_float_word ''1x''"
    by (simp_all add: parse_eval notion_eval)
  have d4: "strip ''-10*30'' = CHR ''-'' # ''10*30''" "dec_normalise ''10*30'' = ''10:30''"
    "split_on CHR '':'' ''10:30'' = [''10'', ''30'']" "py_int ''10'' = Some 10"
    "py_int ''30'' = Some 30"
    by (simp_all add: parse_eval)
  have range: "\<bar>real_of_int 10\<bar> < float_overflow" "\<bar>real_of_int 30\<bar> < float_overflow"
    "\<bar>real_of_int 10 + real_of_int 30 / 60\<bar> < float_overflow"
    using float_overflow_large by simp_all
  have "parse_ra_string ''12:30'' = None"
    using asc ra_a malformed_input_fails [of "''12:30''"] by blast
  moreover have "parse_ra_string ''12h'' = None"
    using asc ra_b malformed_input_fails [of "''12h''"] by blast
  moreover have "parse_ra_string ''12:xx:00'' = None"
    using asc ra_c malformed_input_fails [of "''12:xx:00''"] by blast
  moreover have "parse_dec_string '' '' = None"
    using asc d0 malformed_input_fails [of _ "'' ''"] by blast
  moreover have "parse_dec_string ''+abc'' = None"
    using malformed_input_fails [of _ "''+abc''" "CHR ''+''" "''abc''" "''abc''" "[''abc'']"]
    by (simp add: d1 asc)
  moreover have "parse_dec_string ''-10*xx'' = None"
    using malformed_input_fails [of _ "''-10*xx''" "CHR ''-''" "''10*xx''" "''10:xx''"
        "[''10'', ''xx'']"]
    by (simp add: d2 asc)
  moreover have "parse_dec_string ''-10*30:1x'' = None"
    using malformed_input_fails [of _ "''-10*30:1x''" "CHR ''-''" "''10*30:1x''" "''10:30:1x''"
        "[''10'', ''30'', ''1x'']"]
    by (simp add: d3 asc)
  moreover have "parse_dec_string ''-10*30'' = Some (Finite (- (21 / 2)))"
    using range
      malformed_input_fails [of _ "''-10*30''" "CHR ''-''" "''10*30''" "''10:30''"
        "[''10'', ''30'']" 10 30]
    by (simp add: d4 asc)
  ultimately show ?thesis by blast
qed

section \<open>Properties of the mount client\<close>

lemma send_command_not_connected:
  "\<not> connected_flag self \<Longrightarrow> send_command command expect_response self = (None, self)"
  by (simp add: send_command_def)

text \<open>
  Claim C10. While the client is not connected, every protocol operation returns no
  value (\<open>None\<close>, or \<open>False\<close> for the boolean queries) and leaves the client as it
  was; in particular nothing is written to the port.
\<close>

theorem not_connected_no_io:
  assumes "\<not> connected_flag self"
  shows "send_command command expect_response self = (None, self)
    \<and> get_position self = ((None, None), self)
    \<and> get_status self = (None, self)
    \<and> is_slewing self = (False, self)
    \<and> is_tracking self = (False, self)
    \<and> is_adjusting self = (False, self)
    \<and> start_slew direction self = self
    \<and> stop_slew direction self = self
    \<and> set_slew_rate rate self = self
    \<and> move_azimuth arcminutes self = self
    \<and> move_altitude arcminutes self = self
    \<and> set_tracking enabled self = self
    \<and> get_az_alt_position self = ((None, None), self)
    \<and> home_az_alt self = self"
proof -
  note nc = send_command_not_connected [OF assms]
  have "get_position self = ((None, None), self)"
    by (simp add: get_position_def nc)
  moreover have "get_status self = (None, self)"
    by (simp add: get_status_def nc)
  moreover have "is_slewing self = (False, self)" "is_tracking self = (False, self)"
    by (simp_all add: is_slewing_def is_tracking_def nc)
  moreover have "is_adjusting self = (False, self)"
    by (simp add: is_adjusting_def get_status_def nc)
  moreover have "start_slew direction self = self" "stop_slew direction self = self"
    "set_slew_rate rate self = self"
    by (simp_all add: start_slew_def stop_slew_def set_slew_rate_def nc Let_def)
  moreover have "move_azimuth arcminutes self = self" "move_altitude arcminutes self = self"
    "set_tracking enabled self = self" "home_az_alt self = self"
    by (simp_all add: move_azimuth_def move_altitude_def set_tracking_def home_az_alt_def nc)
  moreover have "get_az_alt_position self = ((None, None), self)"
    by (simp add: get_az_alt_position_def nc)
  ultimately show ?thesis
    using nc by simp
qed

theorem not_connected_no_io_witness:
  "\<not> connected_flag new_mount_client
   \<and> get_position new_mount_client = ((None, None), new_mount_client)
   \<and> is_adjusting new_mount_client = (False, new_mount_client)
   \<and> move_azimuth 5 new_mount_client = new_mount_client"
proof -
  have h: "\<not> connected_flag new_mount_client"
    by (simp add: new_mount_client_def)
  show ?thesis
    using h not_connected_no_io [OF h, of "'':GR#''" True "''n''" "''S''" 5 True]
    by simp
qed

lemma contains_iff: "contains sub s \<longleftrightarrow> (\<exists>pre post. s = pre @ sub @ post)"
proof (induction s)
  case Nil
  then show ?case by auto
next
  case (Cons c cs)
  show ?case
  proof
    assume "contains sub (c # cs)"
    then consider "take (length sub) (c # cs) = sub" | "contains sub cs" by auto
    then show "\<exists>pre post. c # cs = pre @ sub @ post"
    proof cases
      case 1
      then have "c # cs = [] @ sub @ drop (length sub) (c # cs)"
        by (metis append_Nil append_take_drop_id)
      then show ?thesis by blast
    next
      case 2
      with Cons.IH obtain pre post where "cs = pre @ sub @ post" by blast
      then have "c # cs = (c # pre) @ sub @ post" by simp
      then show ?thesis by blast
    qed
  next
    assume "\<exists>pre post. c # cs = pre @ sub @ post"
    then obtain pre post where eq: "c # cs = pre @ sub @ post" by blast
    show "contains sub (c # cs)"
    proof (cases pre)
      case Nil
      with eq have "take (length sub) (c # cs) = sub" by simp
      then show ?thesis by simp
    next
      case (Cons p ps)
      with eq have "cs = ps @ sub @ post" by simp
      with Cons.IH have "contains sub cs" by blast
      then show ?thesis by simp
    qed
  qed
qed

lemma contains_nonempty: "contains ''OpenAstro'' r \<Longrightarrow> r \<noteq> []"
  by auto

text \<open>
  Claim C9. When the serial port opens, \<open>_connect_serial\<close> succeeds exactly when the port
  works and the reply to the product query (the bytes received up to the first \<open>#\<close>,
  nothing if none arrive) contains \<open>OpenAstro\<close>. On a working port the bytes written are
  exactly the query \<open>:GVP#\<close>. On success the client is connected in serial mode over an
  open port; otherwise (also for an empty or missing reply) the connection state is
  unchanged and the port is closed.
\<close>

theorem connect_serial_handshake:
  assumes avail: "SERIAL_AVAILABLE env"
    and dev: "serial_device env port = Some d"
  shows "(let reply = (case dev_script d of [] \<Rightarrow> []
                       | r # rs \<Rightarrow> decode_ascii (takeWhile (\<lambda>c. c \<noteq> CHR ''#'') r));
              vendor_ok = (\<not> dev_io_error d \<and> contains ''OpenAstro'' reply);
              self' = snd (connect_serial env port self)
          in fst (connect_serial env port self) = vendor_ok
             \<and> (\<not> dev_io_error d \<longrightarrow> map_option tx (serial_conn self') = Some '':GVP#'')
             \<and> (vendor_ok \<longrightarrow> connected_flag self' \<and> mode self' = Some Serial
                    \<and> map_option is_open (serial_conn self') = Some True)
             \<and> (\<not> vendor_ok \<longrightarrow> connected_flag self' = connected_flag self
                    \<and> mode self' = mode self
                    \<and> map_option is_open (serial_conn self') = Some False))"
proof (cases "dev_io_error d")
  case True
  then show ?thesis
    using avail dev
    by (simp add: connect_serial_def open_serial_def serial_command_def close_port_def Let_def)
next
  case False
  show ?thesis
  proof (cases "dev_script d")
    case Nil
    then show ?thesis
      using avail dev False
      by (simp add: connect_serial_def open_serial_def serial_command_def close_port_def Let_def)
  next
    case (Cons r rs)
    then show ?thesis
      using avail dev False contains_nonempty
      by (auto simp add: connect_serial_def open_serial_def serial_command_def close_port_def
            Let_def)
  qed
qed

theorem connect_serial_handshake_witness:
  "SERIAL_AVAILABLE env_other \<and> serial_device env_other ''/dev/ttyACM0'' = Some dev_other
   \<and> \<not> fst (connect_serial env_other ''/dev/ttyACM0'' new_mount_client)
   \<and> map_option tx (serial_conn (snd (connect_serial env_other ''/dev/ttyACM0'' new_mount_client)))
       = Some '':GVP#''
   \<and> map_option is_open
         (serial_conn (snd (connect_serial env_other ''/dev/ttyACM0'' new_mount_client)))
       = Some False
   \<and> SERIAL_AVAILABLE env_oat \<and> serial_device env_oat ''/dev/ttyACM0'' = Some dev_oat
   \<and> fst (connect_serial env_oat ''/dev/ttyACM0'' new_mount_client)
   \<and> connected_flag (snd (connect_serial env_oat ''/dev/ttyACM0'' new_mount_client))"
proof -
  have a: "SERIAL_AVAILABLE env_other" by (simp add: env_other_def)
  have b: "serial_device env_other ''/dev/ttyACM0'' = Some dev_other" by (simp add: env_other_def)
  have c: "SERIAL_AVAILABLE env_oat" by (simp add: env_oat_def)
  have d: "serial_device env_oat ''/dev/ttyACM0'' = Some dev_oat" by (simp add: env_oat_def)
  show ?thesis
    using a b c d connect_serial_handshake [OF a b, of new_mount_client]
      connect_serial_handshake [OF c d, of new_mount_client]
    by (simp add: dev_other_def dev_oat_def decode_ascii_def Let_def)
qed

section \<open>Properties of the alignment run\<close>

text \<open>
  Claim C4. A start request while \<open>alignment_running\<close> is set is answered with the
  "already running" error and leaves the whole state as it was: no further thread is
  created. Hence, after a start that succeeded, a second start (whatever its body) is
  rejected, and exactly one thread has been added.
\<close>

theorem start_while_running_rejected:
  "(alignment_running s \<longrightarrow> api_auto_align_start cfg req s = (AlreadyRunning, s))
   \<and> (fst (api_auto_align_start cfg req s) = Started \<longrightarrow>
        (let s1 = snd (api_auto_align_start cfg req s)
         in api_auto_align_start cfg req' s1 = (AlreadyRunning, s1)
            \<and> length (threads s1) = Suc (length (threads s))))"
  by (auto simp add: api_auto_align_start_def Let_def split: request_json.splits option.splits)

theorem start_while_running_rejected_witness:
  "alignment_running (initial_app_state\<lparr>alignment_running := True\<rparr>)
   \<and> api_auto_align_start default_config NoJson (initial_app_state\<lparr>alignment_running := True\<rparr>)
       = (AlreadyRunning, initial_app_state\<lparr>alignment_running := True\<rparr>)
   \<and> fst (api_auto_align_start default_config NoJson initial_app_state) = Started
   \<and> fst (api_auto_align_start default_config NoJson
            (snd (api_auto_align_start default_config NoJson initial_app_state)))
       = AlreadyRunning
   \<and> length (threads (snd (api_auto_align_start default_config NoJson initial_app_state))) = 1"
proof -
  have started: "fst (api_auto_align_start default_config NoJson initial_app_state) = Started"
    by (simp add: api_auto_align_start_def initial_app_state_def)
  have running: "alignment_running (initial_app_state\<lparr>alignment_running := True\<rparr>)"
    by simp
  show ?thesis
    using started running
      start_while_running_rejected
        [of "initial_app_state\<lparr>alignment_running := True\<rparr>" default_config NoJson NoJson]
      start_while_running_rejected [of initial_app_state default_config NoJson NoJson]
    by (simp add: Let_def initial_app_state_def)
qed

lemma align_pass_capture_fails:
  assumes "capture_result env iteration = None \<or> capture_result env iteration = Some []"
  shows "align_pass env cfg target iteration s =
     (Continue, sleep 2 (emit_status ''Capture failed'' ''error''
        (emit_status (''Iteration '' @ show_int iteration @ '': Capturing...'') ''info'' s)))"
  using assms by (auto simp add: align_pass_def Let_def)

lemma alignment_running_emit: "alignment_running (emit_status m l s) = alignment_running s"
  by (simp add: emit_status_def)

lemma alignment_running_sleep: "alignment_running (sleep t s) = alignment_running s"
  by (simp add: sleep_def)

text \<open>
  Claim C1, as stated, fails: the counter is incremented at the top of every pass, also
  of a pass whose capture fails. With a budget of two passes and a camera that always
  fails, the run makes two capture attempts, numbered 1 and 2, and ends with the
  message that the maximum of iterations is reached.
\<close>

theorem capture_failure_counterexample:
  "auto_align_loop capture_fails_env (default_config\<lparr>MAX_ITERATIONS := 2\<rparr>) (Finite 60)
     (initial_app_state\<lparr>alignment_running := True\<rparr>)
   = (Continue,
      initial_app_state
        \<lparr>emitted := [(''Auto-align started'', ''info''),
                     (''Iteration 1: Capturing...'', ''info''), (''Capture failed'', ''error''),
                     (''Iteration 2: Capturing...'', ''info''), (''Capture failed'', ''error''),
                     (''Max iterations (2) reached'', ''warning''),
                     (''Auto-align finished'', ''info'')],
         slept := [2, 2]\<rparr>)"
  by (simp add: auto_align_loop_def align_loop.simps align_pass_def capture_fails_env_def
        default_config_def initial_app_state_def emit_status_def sleep_def show_int_def
        show_nat.simps digit_char_def api_auto_align_stop_def Let_def)

text \<open>
  Claim C1, amended. In a loop state that passes the loop test (the run is active, no
  stop was requested, the counter is below the maximum), a pass whose capture fails
  emits the capturing message and the event \<open>Capture failed\<close>, pauses two seconds, and
  goes back to the loop test with the run still active and the counter incremented by
  one: a capture failure consumes one slot of the budget of iterations.
\<close>

theorem capture_failure_consumes_iteration:
  assumes running: "alignment_running s"
    and nostop: "\<not> stop_request env iteration"
    and budget: "iteration < MAX_ITERATIONS cfg"
    and fails: "capture_result env (iteration + 1) = None
                \<or> capture_result env (iteration + 1) = Some []"
  shows "(let s' = sleep 2 (emit_status ''Capture failed'' ''error''
                     (emit_status (''Iteration '' @ show_int (iteration + 1) @ '': Capturing...'')
                        ''info'' s))
          in align_pass env cfg target (iteration + 1) s = (Continue, s')
             \<and> alignment_running s'
             \<and> align_loop env cfg target iteration s
                 = align_loop env cfg target (iteration + 1) s')"
proof -
  note pass = align_pass_capture_fails [OF fails, of cfg target s]
  have "align_loop env cfg target iteration s
        = align_loop env cfg target (iteration + 1)
            (snd (align_pass env cfg target (iteration + 1) s))"
    using running nostop budget pass
    by (subst align_loop.simps) (simp add: Let_def)
  then show ?thesis
    using pass running
    by (simp add: Let_def alignment_running_emit alignment_running_sleep)
qed

theorem capture_failure_consumes_iteration_witness:
  "alignment_running (initial_app_state\<lparr>alignment_running := True\<rparr>)
   \<and> \<not> stop_request capture_fails_env 0
   \<and> 0 < MAX_ITERATIONS default_config
   \<and> capture_result capture_fails_env (0 + 1) = None
   \<and> align_loop capture_fails_env default_config (Finite 60) 0
        (initial_app_state\<lparr>alignment_running := True\<rparr>)
     = align_loop capture_fails_env default_config (Finite 60) (0 + 1)
        (sleep 2 (emit_status ''Capture failed'' ''error''
           (emit_status (''Iteration '' @ show_int (0 + 1) @ '': Capturing...'') ''info''
              (initial_app_state\<lparr>alignment_running := True\<rparr>))))"
proof -
  have a: "alignment_running (initial_app_state\<lparr>alignment_running := True\<rparr>)" by simp
  have b: "\<not> stop_request capture_fails_env 0" by (simp add: capture_fails_env_def)
  have c: "0 < MAX_ITERATIONS default_config" by (simp add: default_config_def)
  have d: "capture_result capture_fails_env (0 + 1) = None
           \<or> capture_result capture_fails_env (0 + 1) = Some []"
    by (simp add: capture_fails_env_def)
  have e: "capture_result capture_fails_env (0 + 1) = None"
    by (simp add: capture_fails_env_def)
  show ?thesis
    using a b c e capture_failure_consumes_iteration [OF a b c d, of "Finite 60"]
    by (simp only: Let_def) simp
qed

end
